theory Spec2Isabelle
  imports Main "HOL-Library.Word"
begin

unbundle bit_operations_syntax

section \<open>The ICSP programmer of \<^verbatim>\<open>oldfirmware/pic.c\<close>\<close>

text \<open>
  The firmware bit-bangs the in-circuit serial programming protocol of a PIC over four
  GPIO lines. Everything it does to the outside world is a pin operation, a busy-wait,
  a line on the debug console or a response handed to the TCP server, so the model keeps
  one chronological list of such events beside the session variables. The level sampled
  by \<^verbatim>\<open>GPIO_GET\<close> comes from the environment: the k-th sample taken since
  start-up is \<open>data_in k\<close>.

  The headers \<^verbatim>\<open>pic_io.h\<close> and \<^verbatim>\<open>pic_devices.h\<close> are not part of the
  sources at hand. Pin names, levels, delays and the three programmer states only occur
  symbolically in \<^verbatim>\<open>pic.c\<close> and are datatypes here; the numeric constants whose
  bits the code inspects (opcodes, config offsets, flash tags) and the device table are
  the fields of a parameter record \<open>pic_io\<close>. C identifiers that start with an
  underscore lose it.
\<close>

subsection \<open>Data model\<close>

datatype pin = MCLR_NUM | VDD_NUM | DATA_NUM | CLOCK_NUM | LED_NUM

datatype level = LOW | HIGH | MCLR_RESET | MCLR_VPP

datatype delay =
  DELAY_SETTLE | DELAY_TPPDP | DELAY_THLD0 | DELAY_TSET1 | DELAY_THLD1 | DELAY_TDLY2 | DELAY_TDLY3

datatype pstate = STATE_IDLE | STATE_PROGRAM | STATE_CONFIG

text \<open>
  \<^verbatim>\<open>SPError\<close>: the first three values are those of \<^verbatim>\<open>sp.h\<close>; the other three are
  used by \<^verbatim>\<open>pic.c\<close> as status codes of the same type.
\<close>

datatype SPError =
  SP_OK | SP_ERR_INVALID_COMMAND | SP_ERR_REQ_LEN
  | SP_ERR_DEVICE_NOT_DETECTED | SP_STATUS_READ_MORE | SP_STATUS_READ_DONE

datatype printf_arg = Str string | Hex "32 word"

datatype event =
  GPIO_SET pin level
  | GPIO_OUTPUT pin
  | GPIO_INPUT pin
  | os_delay_us delay
  | os_printf string "printf_arg list"
  | sp_tcpserver_response SPError "8 word list"

text \<open>
  An entry of the table \<^verbatim>\<open>devices[]\<close>, with the fields \<^verbatim>\<open>pic.c\<close> reads.
  The id is read into an \<^verbatim>\<open>int\<close>; the sizes and addresses are taken at the width
  of the variables they are assigned to.
\<close>

record deviceInfo =
  name :: string
  deviceId :: int
  programSize :: "64 word"
  dev_configStart :: "64 word"
  configSize :: "64 word"
  dev_dataStart :: "64 word"
  dataSize :: "64 word"
  reservedWords :: "64 word"
  dev_configSave :: "32 word"
  dev_progFlashType :: "8 word"
  dev_dataFlashType :: "8 word"

record pic_io =
  CMD_LOAD_CONFIG :: "8 word"
  CMD_INCREMENT_ADDRESS :: "8 word"
  CMD_READ_PROGRAM_MEMORY :: "8 word"
  CMD_READ_DATA_MEMORY :: "8 word"
  DEV_USERID0 :: "64 word"
  DEV_USERID1 :: "64 word"
  DEV_USERID2 :: "64 word"
  DEV_USERID3 :: "64 word"
  DEV_ID :: "64 word"
  DEV_CONFIG_WORD :: "64 word"
  FLASH4 :: "8 word"
  EEPROM :: "8 word"
  devices :: "deviceInfo list"

text \<open>
  The file-scope variables of \<^verbatim>\<open>pic.c\<close> (\<open>pic_state\<close> is \<^verbatim>\<open>_state\<close>), the
  events so far, the number of samples taken from the DATA line and the levels the
  environment presents there.
\<close>

record pic =
  pic_state :: pstate
  program_counter :: "64 word"
  programEnd :: "64 word"
  configStart :: "64 word"
  configEnd :: "64 word"
  dataStart :: "64 word"
  dataEnd :: "64 word"
  reservedStart :: "64 word"
  reservedEnd :: "64 word"
  configSave :: "32 word"
  progFlashType :: "8 word"
  dataFlashType :: "8 word"
  trace :: "event list"
  samples :: nat
  data_in :: "nat \<Rightarrow> bool"

definition emits :: "event list \<Rightarrow> pic \<Rightarrow> pic" where
  "emits es s = s\<lparr>trace := trace s @ es\<rparr>"

subsection \<open>Entering and leaving programming mode\<close>

definition enter_program_mode :: "pic \<Rightarrow> pic" where
  "enter_program_mode s =
     (if pic_state s \<noteq> STATE_IDLE then s
      else (emits [GPIO_SET MCLR_NUM MCLR_RESET, GPIO_SET VDD_NUM LOW,
                   GPIO_SET DATA_NUM LOW, GPIO_SET CLOCK_NUM LOW,
                   os_delay_us DELAY_SETTLE,
                   GPIO_OUTPUT DATA_NUM, GPIO_OUTPUT CLOCK_NUM,
                   GPIO_SET MCLR_NUM MCLR_VPP, os_delay_us DELAY_TPPDP,
                   GPIO_SET VDD_NUM HIGH, os_delay_us DELAY_THLD0] s)
           \<lparr>pic_state := STATE_PROGRAM, program_counter := 0\<rparr>)"

definition exit_program_mode :: "pic \<Rightarrow> pic" where
  "exit_program_mode s =
     (if pic_state s = STATE_IDLE then s
      else (emits [GPIO_SET MCLR_NUM MCLR_RESET, GPIO_SET VDD_NUM LOW,
                   GPIO_SET DATA_NUM LOW, GPIO_SET CLOCK_NUM LOW,
                   GPIO_INPUT DATA_NUM, GPIO_INPUT CLOCK_NUM] s)
           \<lparr>pic_state := STATE_IDLE, program_counter := 0\<rparr>)"

subsection \<open>Bit codec\<close>

text \<open>
  The three \<^verbatim>\<open>for\<close> loops run a fixed number of times; the first argument of each
  loop function is the number of iterations still to run.
\<close>

fun send_command_loop :: "nat \<Rightarrow> 8 word \<Rightarrow> pic \<Rightarrow> pic" where
  "send_command_loop 0 cmd s = s"
| "send_command_loop (Suc n) cmd s =
     send_command_loop n (drop_bit 1 cmd)
       (emits [GPIO_SET CLOCK_NUM HIGH,
               GPIO_SET DATA_NUM (if cmd AND 1 \<noteq> 0 then HIGH else LOW),
               os_delay_us DELAY_TSET1,
               GPIO_SET CLOCK_NUM LOW,
               os_delay_us DELAY_THLD1] s)"

definition send_command :: "8 word \<Rightarrow> pic \<Rightarrow> pic" where
  "send_command cmd s = send_command_loop 6 cmd s"

definition send_simple_command :: "8 word \<Rightarrow> pic \<Rightarrow> pic" where
  "send_simple_command cmd s = emits [os_delay_us DELAY_TDLY2] (send_command cmd s)"

fun send_write_command_loop :: "nat \<Rightarrow> 32 word \<Rightarrow> pic \<Rightarrow> pic" where
  "send_write_command_loop 0 data s = s"
| "send_write_command_loop (Suc n) data s =
     send_write_command_loop n (drop_bit 1 data)
       (emits [GPIO_SET CLOCK_NUM HIGH,
               GPIO_SET DATA_NUM (if data AND 1 \<noteq> 0 then HIGH else LOW),
               os_delay_us DELAY_TSET1,
               GPIO_SET CLOCK_NUM LOW,
               os_delay_us DELAY_THLD1] s)"

definition send_write_command :: "8 word \<Rightarrow> 32 word \<Rightarrow> pic \<Rightarrow> pic" where
  "send_write_command cmd data s =
     emits [os_delay_us DELAY_TDLY2]
       (send_write_command_loop 16 data
          (emits [os_delay_us DELAY_TDLY2] (send_command cmd s)))"

definition GPIO_GET :: "pin \<Rightarrow> pic \<Rightarrow> bool \<times> pic" where
  "GPIO_GET p s = (data_in s (samples s), s\<lparr>samples := Suc (samples s)\<rparr>)"

fun send_read_command_loop :: "nat \<Rightarrow> 32 word \<Rightarrow> pic \<Rightarrow> 32 word \<times> pic" where
  "send_read_command_loop 0 data s = (data, s)"
| "send_read_command_loop (Suc n) data s =
     (let data1 = drop_bit 1 data;
          s1 = emits [GPIO_SET CLOCK_NUM HIGH, os_delay_us DELAY_TDLY3] s;
          (b, s2) = GPIO_GET DATA_NUM s1;
          data2 = (if b then data1 OR 0x8000 else data1);
          s3 = emits [GPIO_SET CLOCK_NUM LOW, os_delay_us DELAY_THLD1] s2
      in send_read_command_loop n data2 s3)"

definition send_read_command :: "8 word \<Rightarrow> pic \<Rightarrow> 32 word \<times> pic" where
  "send_read_command cmd s =
     (let s1 = emits [GPIO_SET DATA_NUM LOW, GPIO_INPUT DATA_NUM, os_delay_us DELAY_TDLY2]
                 (send_command cmd s);
          (data, s2) = send_read_command_loop 16 0 s1
      in (data, emits [GPIO_OUTPUT DATA_NUM, os_delay_us DELAY_TDLY2] s2))"

subsection \<open>Program-counter state machine\<close>

lemma unat_succ_below: "(x::'a::len word) < y \<Longrightarrow> unat (x + 1) = Suc (unat x)"
  by unat_arith

text \<open>
  The loop \<^verbatim>\<open>while (_program_counter < addr)\<close> that closes both
  \<^verbatim>\<open>_set_program_counter\<close> and the address phase of \<^verbatim>\<open>_read_config_word\<close>.
  The counter is a 64-bit word that grows by one per round and stops at \<open>addr\<close>, so
  the distance to \<open>addr\<close> decreases.
\<close>

function advance_program_counter :: "pic_io \<Rightarrow> 64 word \<Rightarrow> pic \<Rightarrow> pic" where
  "advance_program_counter K addr s =
     (if program_counter s < addr
      then advance_program_counter K addr
             (let s1 = send_simple_command (CMD_INCREMENT_ADDRESS K) s
              in s1\<lparr>program_counter := program_counter s1 + 1\<rparr>)
      else s)"
  by pat_completeness auto
termination
proof (relation "measure (\<lambda>(K, addr, s). unat addr - unat (program_counter s))")
  show "wf (measure (\<lambda>(K, addr, s). unat addr - unat (program_counter s)))"
    by simp
next
  fix K :: pic_io and addr :: "64 word" and s :: pic
  assume lt: "program_counter s < addr"
  have keep: "program_counter (send_simple_command (CMD_INCREMENT_ADDRESS K) s)
                = program_counter s"
    by (simp add: send_simple_command_def send_command_def emits_def eval_nat_numeral)
  from lt have "unat addr - unat (program_counter s + 1) < unat addr - unat (program_counter s)"
    by unat_arith
  with keep show
    "((K, addr, let s1 = send_simple_command (CMD_INCREMENT_ADDRESS K) s
                in s1\<lparr>program_counter := program_counter s1 + 1\<rparr>), (K, addr, s))
       \<in> measure (\<lambda>(K, addr, s). unat addr - unat (program_counter s))"
    by (simp add: Let_def)
qed

declare advance_program_counter.simps [simp del]

text \<open>The two address tests of \<^verbatim>\<open>_set_program_counter\<close>, in the order it makes them.\<close>

definition in_data :: "pic \<Rightarrow> 64 word \<Rightarrow> bool" where
  "in_data s addr \<longleftrightarrow> addr \<ge> dataStart s \<and> addr \<le> dataEnd s"

definition in_config :: "pic \<Rightarrow> 64 word \<Rightarrow> bool" where
  "in_config s addr \<longleftrightarrow> addr \<ge> configStart s \<and> addr \<le> configEnd s"

definition load_config :: "pic_io \<Rightarrow> pic \<Rightarrow> pic" where
  "load_config K s = (send_write_command (CMD_LOAD_CONFIG K) 0 s)\<lparr>pic_state := STATE_CONFIG\<rparr>"

definition set_program_counter :: "pic_io \<Rightarrow> 64 word \<Rightarrow> pic \<Rightarrow> pic" where
  "set_program_counter K addr s =
     (if in_data s addr then
        (let addr1 = addr - dataStart s
         in advance_program_counter K addr1
              (if pic_state s \<noteq> STATE_PROGRAM \<or> addr1 < program_counter s
               then enter_program_mode (exit_program_mode s)
               else s))
      else if in_config s addr then
        (let addr1 = addr - configStart s
         in advance_program_counter K addr1
              (if pic_state s = STATE_IDLE then
                 load_config K (enter_program_mode s)
               else if pic_state s = STATE_PROGRAM then
                 (load_config K s)\<lparr>program_counter := 0\<rparr>
               else if addr1 < program_counter s then
                 load_config K (enter_program_mode (exit_program_mode s))
               else s))
      else
        advance_program_counter K addr
          (if pic_state s \<noteq> STATE_PROGRAM \<or> addr < program_counter s
           then enter_program_mode (exit_program_mode s)
           else s))"

definition set_erase_program_counter :: "pic_io \<Rightarrow> pic \<Rightarrow> pic" where
  "set_erase_program_counter K s =
     (send_write_command (CMD_LOAD_CONFIG K) 0x3FFF
        (enter_program_mode (exit_program_mode s)))\<lparr>pic_state := STATE_CONFIG\<rparr>"

subsection \<open>Word access\<close>

definition read_word :: "pic_io \<Rightarrow> 64 word \<Rightarrow> pic \<Rightarrow> 32 word \<times> pic" where
  "read_word K addr s =
     (let s1 = set_program_counter K addr s
      in if addr \<ge> dataStart s1 \<and> addr \<le> dataEnd s1 then
           (let (raw, s2) = send_read_command (CMD_READ_DATA_MEMORY K) s1
            in (drop_bit 1 raw AND 0x00FF, s2))
         else
           (let (raw, s2) = send_read_command (CMD_READ_PROGRAM_MEMORY K) s1
            in (drop_bit 1 raw AND 0x3FFF, s2)))"

definition read_config_word :: "pic_io \<Rightarrow> 64 word \<Rightarrow> pic \<Rightarrow> 32 word \<times> pic" where
  "read_config_word K addr s =
     (let s1 = advance_program_counter K addr
                 (if pic_state s = STATE_IDLE then
                    load_config K (enter_program_mode s)
                  else if pic_state s = STATE_PROGRAM then
                    (load_config K s)\<lparr>program_counter := 0\<rparr>
                  else if addr < program_counter s then
                    load_config K (enter_program_mode (exit_program_mode s))
                  else s);
          (raw, s2) = send_read_command (CMD_READ_PROGRAM_MEMORY K) s1
      in (drop_bit 1 raw AND 0x3FFF, s2))"

subsection \<open>Requests, responses and byte buffers\<close>

text \<open>
  A \<^verbatim>\<open>char *\<close> is modelled by the bytes found at each offset from the address it
  holds. For the request body these are the bytes of the packet; for the chunk buffer of
  the range read, offsets \<open>0..1023\<close> are the allocation and larger offsets are
  whatever memory follows it.
\<close>

type_synonym mem = "nat \<Rightarrow> 8 word"

record SPPacketHead =
  command :: "8 word"
  body_length :: "32 word"

record SPPacket =
  head :: SPPacketHead
  body :: mem

text \<open>
  Modelled from the spec: \<^verbatim>\<open>bigendian_deserialize_uint32\<close> and
  \<^verbatim>\<open>bigendian_serialize_uint32\<close> are called by \<^verbatim>\<open>pic.c\<close> but defined
  elsewhere in the firmware. The spec has the request carry its addresses as big-endian
  32-bit fields and each word read be big-endian-encoded into a 4-byte field: the most
  significant byte comes first.
\<close>

definition bigendian_deserialize_uint32 :: "mem \<Rightarrow> nat \<Rightarrow> 32 word" where
  "bigendian_deserialize_uint32 m off =
     push_bit 24 (ucast (m off)) OR push_bit 16 (ucast (m (off + 1)))
       OR push_bit 8 (ucast (m (off + 2))) OR ucast (m (off + 3))"

definition bigendian_serialize_uint32 :: "mem \<Rightarrow> nat \<Rightarrow> 32 word \<Rightarrow> mem" where
  "bigendian_serialize_uint32 m off w =
     m(off := ucast (drop_bit 24 w), off + 1 := ucast (drop_bit 16 w),
       off + 2 := ucast (drop_bit 8 w), off + 3 := ucast w)"

text \<open>\<^verbatim>\<open>os_zalloc(n)\<close> inside memory \<open>heap\<close>: the first \<open>n\<close> bytes are cleared.\<close>

definition os_zalloc :: "mem \<Rightarrow> nat \<Rightarrow> mem" where
  "os_zalloc heap n = (\<lambda>i. if i < n then 0 else heap i)"

definition CRLF :: string where
  "CRLF = [CHR 0x0D, CHR 0x0A]"

subsection \<open>Device profiles and detection\<close>

definition init_device :: "deviceInfo \<Rightarrow> pic \<Rightarrow> pic" where
  "init_device dev s =
     (let s1 = s\<lparr>programEnd := programSize dev - 1\<rparr>;
          s2 = s1\<lparr>configStart := dev_configStart dev\<rparr>;
          s3 = s2\<lparr>configEnd := configStart s2 + configSize dev - 1\<rparr>;
          s4 = s3\<lparr>dataStart := dev_dataStart dev\<rparr>;
          s5 = s4\<lparr>dataEnd := dataStart s4 + dataSize dev - 1\<rparr>;
          s6 = s5\<lparr>reservedStart := programEnd s5 - reservedWords dev + 1\<rparr>;
          s7 = s6\<lparr>reservedEnd := programEnd s6,
                    configSave := dev_configSave dev,
                    progFlashType := dev_progFlashType dev,
                    dataFlashType := dev_dataFlashType dev\<rparr>;
          s8 = emits
                 [os_printf (''DeviceName: %s'' @ CRLF) [Str (name dev)],
                  os_printf (''ProgramRange: 0000-%04X'' @ CRLF) [Hex (ucast (programEnd s7))],
                  os_printf (''ConfigRange: %04X-%04X'' @ CRLF)
                    [Hex (ucast (configStart s7)), Hex (ucast (configEnd s7))],
                  os_printf (''ConfigSave: %02X'' @ CRLF)
                    [Hex (ucast (ucast (configSave s7) :: 16 word))],
                  os_printf (''DataRange: %04X-%04X'' @ CRLF)
                    [Hex (ucast (dataStart s7)), Hex (ucast (dataEnd s7))]] s7
      in if reservedStart s8 \<le> reservedEnd s8
         then emits [os_printf (''ReservedRange: %04X-%04X'' @ CRLF)
                       [Hex (ucast (reservedStart s8)), Hex (ucast (reservedEnd s8))]] s8
         else s8)"

text \<open>The assignments of the \<^verbatim>\<open>else\<close> branch that restores the built-in profile.\<close>

definition reset_defaults :: "pic_io \<Rightarrow> pic \<Rightarrow> pic" where
  "reset_defaults K s =
     s\<lparr>programEnd := 0x07FF, configStart := 0x2000, configEnd := 0x2007,
       dataStart := 0x2100, dataEnd := 0x217F,
       reservedStart := 0x0800, reservedEnd := 0x07FF, configSave := 0x0000,
       progFlashType := FLASH4 K, dataFlashType := EEPROM K\<rparr>"

text \<open>
  The \<^verbatim>\<open>for (;;)\<close> loop over \<^verbatim>\<open>devices[]\<close>. The table ends with an entry
  whose name is \<^verbatim>\<open>NULL\<close>; here it is the list of the entries before that one, and
  running off its end is \<^verbatim>\<open>index = -1\<close>. The \<^verbatim>\<open>int\<close> id of an entry is
  converted to \<^verbatim>\<open>uint32_t\<close> for the comparison.
\<close>

fun find_device :: "deviceInfo list \<Rightarrow> 32 word \<Rightarrow> pic \<Rightarrow> deviceInfo option \<times> pic" where
  "find_device [] dId s = (None, s)"
| "find_device (d # ds) dId s =
     (if word_of_int (deviceId d) = dId AND 0xFFE0
      then (Some d, emits [sp_tcpserver_response SP_OK (map of_char (name d))] s)
      else find_device ds dId s)"

text \<open>The loop \<^verbatim>\<open>while (!word && addr < 16)\<close> over the first words of program memory.\<close>

function detect_scan :: "pic_io \<Rightarrow> 32 word \<Rightarrow> 32 word \<Rightarrow> pic \<Rightarrow> 32 word \<times> pic" where
  "detect_scan K word addr s =
     (if word = 0 \<and> addr < 16 then
        (let (w, s1) = read_word K (ucast addr) s
         in detect_scan K (word OR w) (addr + 1) s1)
      else (word, s))"
  by pat_completeness auto
termination
proof (relation "measure (\<lambda>(K, word, addr, s). 16 - unat addr)")
  show "wf (measure (\<lambda>(K, word, addr, s). 16 - unat addr))"
    by simp
next
  fix K :: pic_io and word addr :: "32 word" and s :: pic and x :: "32 word \<times> pic"
    and w :: "32 word" and s1 :: pic
  assume "word = 0 \<and> addr < 16"
  then have lt: "addr < 16"
    by simp
  then have "unat addr < 16"
    by (simp add: word_less_nat_alt)
  moreover from lt have "unat (addr + 1) = Suc (unat addr)"
    by (rule unat_succ_below)
  ultimately have "16 - unat (addr + 1) < 16 - unat addr"
    by simp
  then show "((K, word OR w, addr + 1, s1), (K, word, addr, s))
               \<in> measure (\<lambda>(K, word, addr, s). 16 - unat addr)"
    by simp
qed

declare detect_scan.simps [simp del]

text \<open>
  \<^verbatim>\<open>pic_command_detect_device\<close>. The result is the value of the \<^verbatim>\<open>return\<close>
  statement reached; the \<^verbatim>\<open>return;\<close> of the branch that finds nothing gives
  none. Both ways past the test of the device id run into the same code, from
  \<^verbatim>\<open>os_printf("OK\r\n")\<close> to the end of the function; it is \<open>detect_finish\<close>,
  applied to the device id settled on.
\<close>

definition detect_finish :: "pic_io \<Rightarrow> 32 word \<Rightarrow> 32 word \<Rightarrow> pic \<Rightarrow> SPError option \<times> pic" where
  "detect_finish K deviceId1 configWord s7 =
     (let s8 = emits [os_printf (''OK'' @ CRLF) [],
                      os_printf (''DeviceID: %02X'' @ CRLF) [Hex deviceId1]] s7;
          (found, s9) = find_device (devices K) deviceId1 s8;
          s10 = (case found of
                   Some dev \<Rightarrow> init_device dev s9
                 | None \<Rightarrow>
                     reset_defaults K
                       (emits [os_printf (''No device detected'' @ CRLF) []] s9));
          s11 = exit_program_mode
                  (emits [os_printf (''ConfigWord: %02X'' @ CRLF) [Hex configWord],
                          os_printf (''.'' @ CRLF) []] s10)
      in case found of
           None \<Rightarrow>
             (Some SP_ERR_DEVICE_NOT_DETECTED,
              emits [sp_tcpserver_response SP_ERR_DEVICE_NOT_DETECTED []] s11)
         | Some dev \<Rightarrow> (Some SP_OK, s11))"

definition pic_command_detect_device :: "pic_io \<Rightarrow> SPPacket \<Rightarrow> pic \<Rightarrow> SPError option \<times> pic" where
  "pic_command_detect_device K req s =
     (let s0 = emits [os_printf ''Reading configuration...'' []] (exit_program_mode s);
          (userid0, s1) = read_config_word K (DEV_USERID0 K) s0;
          (userid1, s2) = read_config_word K (DEV_USERID1 K) s1;
          (userid2, s3) = read_config_word K (DEV_USERID2 K) s2;
          (userid3, s4) = read_config_word K (DEV_USERID3 K) s3;
          (deviceId0, s5) = read_config_word K (DEV_ID K) s4;
          (configWord, s6) = read_config_word K (DEV_CONFIG_WORD K) s5
      in if deviceId0 = 0 \<or> deviceId0 = 0x3FFF then
           (let (word, s7) =
                  detect_scan K (userid0 OR userid1 OR userid2 OR userid3 OR configWord) 0 s6
            in if word = 0 then
                 (None, exit_program_mode (emits [os_printf (''ERROR'' @ CRLF) []] s7))
               else detect_finish K 0 configWord s7)
         else detect_finish K deviceId0 configWord s6)"

subsection \<open>Range read\<close>

text \<open>
  The local variables of \<^verbatim>\<open>pic_command_read\<close> that its loop uses, with the
  session. \<open>count\<close> is a C \<^verbatim>\<open>int\<close> that starts at 0 and is only ever
  incremented; it is a natural number here, which is exact below \<open>2 ^ 31\<close> rounds.
  \<open>buffer\<close> is memory seen from the address \<^verbatim>\<open>os_zalloc\<close> returned.
\<close>

record read_vars =
  start :: "32 word"
  end_addr :: "32 word"
  count :: nat
  activity :: bool
  buffer :: mem
  session :: pic

text \<open>One round of the \<^verbatim>\<open>while (start <= end)\<close> loop.\<close>

definition read_body :: "pic_io \<Rightarrow> read_vars \<Rightarrow> read_vars" where
  "read_body K v =
     (let (word, s1) = read_word K (ucast (start v)) (session v);
          v1 = v\<lparr>buffer := bigendian_serialize_uint32 (buffer v) (count v * 4) word,
                session := s1\<rparr>;
          v2 = v1\<lparr>start := start v1 + 1\<rparr>;
          v3 = v2\<lparr>count := count v2 + 1\<rparr>;
          v4 = (if count v3 = 256
                then v3\<lparr>session :=
                          emits [sp_tcpserver_response SP_STATUS_READ_MORE
                                   (map (buffer v3) [0..<1024])] (session v3)\<rparr>
                else v3)
      in if count v4 mod 32 = 0
         then v4\<lparr>activity := \<not> activity v4,
                 session := emits [GPIO_SET LED_NUM (if \<not> activity v4 then HIGH else LOW)]
                              (session v4)\<rparr>
         else v4)"

text \<open>
  The loop itself. With \<^verbatim>\<open>end = 0xFFFFFFFF\<close> the test \<^verbatim>\<open>start <= end\<close> never
  fails, so the loop is a partial function: \<open>None\<close> is a run that does not return.
\<close>

partial_function (option) read_loop :: "pic_io \<Rightarrow> read_vars \<Rightarrow> read_vars option" where
  "read_loop K v = (if start v \<le> end_addr v then read_loop K (read_body K v) else Some v)"

text \<open>
  \<^verbatim>\<open>pic_command_read\<close>. \<open>read_init\<close> is the state of its locals when the loop
  is first reached; \<open>heap\<close> is the memory in which \<^verbatim>\<open>os_zalloc\<close> places the
  buffer. The unused local \<^verbatim>\<open>length\<close> is left out, and the buffer, which the
  function never frees, is dropped on return.
\<close>

definition read_init :: "mem \<Rightarrow> SPPacket \<Rightarrow> pic \<Rightarrow> read_vars" where
  "read_init heap req s =
     \<lparr>start = bigendian_deserialize_uint32 (body req) 0,
      end_addr = bigendian_deserialize_uint32 (body req) 8,
      count = 0, activity = True, buffer = os_zalloc heap 1024, session = s\<rparr>"

definition pic_command_read :: "pic_io \<Rightarrow> mem \<Rightarrow> SPPacket \<Rightarrow> pic \<Rightarrow> (SPError \<times> pic) option" where
  "pic_command_read K heap req s =
     (case read_loop K (read_init heap req s) of
        None \<Rightarrow> None
      | Some v \<Rightarrow>
          Some (SP_OK, emits [sp_tcpserver_response SP_STATUS_READ_DONE []] (session v)))"

subsection \<open>Start-up state\<close>

text \<open>
  The initialisers of the file-scope variables: the built-in PIC16F628A ranges, and
  nothing sent or sampled yet. \<^verbatim>\<open>_state\<close> and \<^verbatim>\<open>_program_counter\<close> have no
  initialiser and start as 0, which is taken to be \<open>STATE_IDLE\<close>.
\<close>

definition pic_initial :: "pic_io \<Rightarrow> (nat \<Rightarrow> bool) \<Rightarrow> pic" where
  "pic_initial K din =
     \<lparr>pic_state = STATE_IDLE, program_counter = 0,
      programEnd = 0x07FF, configStart = 0x2000, configEnd = 0x2007,
      dataStart = 0x2100, dataEnd = 0x217F, reservedStart = 0x0800, reservedEnd = 0x07FF,
      configSave = 0x0000, progFlashType = FLASH4 K, dataFlashType = EEPROM K,
      trace = [], samples = 0, data_in = din\<rparr>"

section \<open>Notions used by the properties\<close>

text \<open>
  The region \<^verbatim>\<open>_set_program_counter\<close> assigns to a flat address (Data is tested
  first, Config second, Program is what remains), the offset it then counts up to, and
  the programmer state in which that region is addressed.
\<close>

datatype MemoryRegion = Program | Config | Data

definition region_of :: "pic \<Rightarrow> 64 word \<Rightarrow> MemoryRegion" where
  "region_of s addr = (if in_data s addr then Data else if in_config s addr then Config else Program)"

definition offset_of :: "pic \<Rightarrow> 64 word \<Rightarrow> 64 word" where
  "offset_of s addr =
     (case region_of s addr of
        Data \<Rightarrow> addr - dataStart s | Config \<Rightarrow> addr - configStart s | Program \<Rightarrow> addr)"

definition state_of_region :: "MemoryRegion \<Rightarrow> pstate" where
  "state_of_region r = (case r of Config \<Rightarrow> STATE_CONFIG | _ \<Rightarrow> STATE_PROGRAM)"

text \<open>
  What \<^verbatim>\<open>_set_program_counter\<close> does before its increment loop: the branch for a
  Config target (shared word for word with \<^verbatim>\<open>_read_config_word\<close>) and the branch
  for a Data or Program target.
\<close>

definition switch_to_config :: "pic_io \<Rightarrow> 64 word \<Rightarrow> pic \<Rightarrow> pic" where
  "switch_to_config K off s =
     (if pic_state s = STATE_IDLE then load_config K (enter_program_mode s)
      else if pic_state s = STATE_PROGRAM then (load_config K s)\<lparr>program_counter := 0\<rparr>
      else if off < program_counter s
        then load_config K (enter_program_mode (exit_program_mode s))
      else s)"

definition switch_to_program :: "64 word \<Rightarrow> pic \<Rightarrow> pic" where
  "switch_to_program off s =
     (if pic_state s \<noteq> STATE_PROGRAM \<or> off < program_counter s
      then enter_program_mode (exit_program_mode s) else s)"

text \<open>
  Two projections of the session: \<open>frame\<close> forgets what the bit codec changes (the
  events and the sample count), \<open>profile\<close> also forgets the programmer state and
  the counter.
\<close>

definition frame :: "pic \<Rightarrow> pic" where
  "frame s = s\<lparr>trace := [], samples := 0\<rparr>"

definition profile :: "pic \<Rightarrow> pic" where
  "profile s = s\<lparr>pic_state := STATE_IDLE, program_counter := 0, trace := [], samples := 0\<rparr>"

text \<open>A 32-bit value whose upper half is clear.\<close>

definition sixteen_bit :: "32 word \<Rightarrow> bool" where
  "sixteen_bit w \<longleftrightarrow> take_bit 16 w = w"

text \<open>The value of the read loop when every sample of the DATA line is \<open>b\<close>.\<close>

fun shift_in :: "bool \<Rightarrow> nat \<Rightarrow> 32 word \<Rightarrow> 32 word" where
  "shift_in b 0 d = d"
| "shift_in b (Suc n) d = shift_in b n (if b then drop_bit 1 d OR 0x8000 else drop_bit 1 d)"

text \<open>
  Concrete inputs for instances of the properties: sample values for the constants of
  \<^verbatim>\<open>pic_io.h\<close> (the opcodes and config offsets of the PIC16F62X programming
  specification) with a one-entry device table, and the request body that carries
  \<open>a\<close> at offset 0 and \<open>b\<close> at offset 8.
\<close>

definition sample_io :: pic_io where
  "sample_io =
     \<lparr>CMD_LOAD_CONFIG = 0x00, CMD_INCREMENT_ADDRESS = 0x06,
      CMD_READ_PROGRAM_MEMORY = 0x04, CMD_READ_DATA_MEMORY = 0x05,
      DEV_USERID0 = 0, DEV_USERID1 = 1, DEV_USERID2 = 2, DEV_USERID3 = 3,
      DEV_ID = 6, DEV_CONFIG_WORD = 7, FLASH4 = 4, EEPROM = 0,
      devices =
        [\<lparr>name = ''pic16f628a'', deviceId = 0x1060, programSize = 2048,
          dev_configStart = 0x2000, configSize = 8, dev_dataStart = 0x2100, dataSize = 128,
          reservedWords = 0, dev_configSave = 0, dev_progFlashType = 4,
          dev_dataFlashType = 0\<rparr>]\<rparr>"

definition request :: "32 word \<Rightarrow> 32 word \<Rightarrow> SPPacket" where
  "request a b =
     \<lparr>head = \<lparr>command = 0, body_length = 12\<rparr>,
      body = bigendian_serialize_uint32 (bigendian_serialize_uint32 (\<lambda>i. 0) 0 a) 8 b\<rparr>"

text \<open>
  Event projections. The bit codec only moves the clock and data lines and waits;
  a predicate on events is \<open>quiet\<close> when it ignores all of that, so filtering a
  trace by it sees through every command sent.
\<close>

fun codec_event :: "event \<Rightarrow> bool" where
  "codec_event (GPIO_SET p l) = (p = CLOCK_NUM \<or> p = DATA_NUM)"
| "codec_event (GPIO_OUTPUT p) = (p = DATA_NUM)"
| "codec_event (GPIO_INPUT p) = (p = DATA_NUM)"
| "codec_event (os_delay_us d) = True"
| "codec_event (os_printf f as) = False"
| "codec_event (sp_tcpserver_response st b) = False"

definition quiet :: "(event \<Rightarrow> bool) \<Rightarrow> bool" where
  "quiet P \<longleftrightarrow> (\<forall>e. codec_event e \<longrightarrow> \<not> P e)"

text \<open>
  Two events mark the power cycle of the target: floating the clock line is the last
  step of an effective \<^verbatim>\<open>_exit_program_mode\<close> and happens nowhere else, and
  raising MCLR to the programming voltage happens only in an effective
  \<^verbatim>\<open>_enter_program_mode\<close>. \<open>power_events\<close> is the sequence of these marks in
  the trace of a session, \<open>responses\<close> the sequence of responses handed to the
  TCP server.
\<close>

definition power_down :: event where
  "power_down = GPIO_INPUT CLOCK_NUM"

definition power_up :: event where
  "power_up = GPIO_SET MCLR_NUM MCLR_VPP"

definition power_event :: "event \<Rightarrow> bool" where
  "power_event e \<longleftrightarrow> e = power_down \<or> e = power_up"

definition power_events :: "pic \<Rightarrow> event list" where
  "power_events s = filter power_event (trace s)"

fun is_response :: "event \<Rightarrow> bool" where
  "is_response (sp_tcpserver_response st b) = True"
| "is_response e = False"

definition responses :: "pic \<Rightarrow> event list" where
  "responses s = filter is_response (trace s)"

text \<open>
  A full reset-and-reinitialize cycle before the increments: the call does what
  \<^verbatim>\<open>_exit_program_mode\<close> followed by \<^verbatim>\<open>_enter_program_mode\<close> does (and the
  load-config command for a Config target), and then only counts up.
\<close>

definition reinitialize :: "pic_io \<Rightarrow> MemoryRegion \<Rightarrow> pic \<Rightarrow> pic" where
  "reinitialize K r s =
     (let s1 = enter_program_mode (exit_program_mode s)
      in if r = Config then load_config K s1 else s1)"

definition full_reset_cycle :: "pic_io \<Rightarrow> 64 word \<Rightarrow> pic \<Rightarrow> bool" where
  "full_reset_cycle K addr s \<longleftrightarrow>
     set_program_counter K addr s =
       advance_program_counter K (offset_of s addr) (reinitialize K (region_of s addr) s)"

text \<open>
  When a cycle is due. \<open>claimed_reset_condition\<close> follows the words of the
  specification: the target's region is not the one the session is in (the programmer
  state is not the state of the target's region), or the target's offset is below the
  counter. \<open>reset_condition\<close> is the test the code makes.
\<close>

definition claimed_reset_condition :: "pic \<Rightarrow> 64 word \<Rightarrow> bool" where
  "claimed_reset_condition s addr \<longleftrightarrow>
     pic_state s \<noteq> state_of_region (region_of s addr) \<or>
     offset_of s addr < program_counter s"

definition reset_condition :: "pic \<Rightarrow> 64 word \<Rightarrow> bool" where
  "reset_condition s addr \<longleftrightarrow>
     (if region_of s addr = Config
      then pic_state s = STATE_IDLE \<or>
           (pic_state s = STATE_CONFIG \<and> offset_of s addr < program_counter s)
      else pic_state s \<noteq> STATE_PROGRAM \<or> offset_of s addr < program_counter s)"

text \<open>
  A session that sits in Program memory at offset 5.
\<close>

definition in_program_at_5 :: pic where
  "in_program_at_5 = set_program_counter sample_io 5 (pic_initial sample_io (\<lambda>k. False))"

text \<open>
  The six reads at the head of \<^verbatim>\<open>pic_command_detect_device\<close>: the four user
  ids, the device id and the configuration word, with the session after the last read.
\<close>

definition read_id_words ::
  "pic_io \<Rightarrow> pic \<Rightarrow> (32 word \<times> 32 word \<times> 32 word \<times> 32 word \<times> 32 word \<times> 32 word) \<times> pic" where
  "read_id_words K s =
     (let s0 = emits [os_printf ''Reading configuration...'' []] (exit_program_mode s);
          (userid0, s1) = read_config_word K (DEV_USERID0 K) s0;
          (userid1, s2) = read_config_word K (DEV_USERID1 K) s1;
          (userid2, s3) = read_config_word K (DEV_USERID2 K) s2;
          (userid3, s4) = read_config_word K (DEV_USERID3 K) s3;
          (deviceId0, s5) = read_config_word K (DEV_ID K) s4;
          (configWord, s6) = read_config_word K (DEV_CONFIG_WORD K) s5
      in ((userid0, userid1, userid2, userid3, deviceId0, configWord), s6))"

text \<open>
  The first table entry whose pattern equals the masked device id, if any: what the
  scan of \<^verbatim>\<open>devices[]\<close> finds.
\<close>

definition lookup_device :: "deviceInfo list \<Rightarrow> 32 word \<Rightarrow> deviceInfo option" where
  "lookup_device ds dId = find (\<lambda>d. word_of_int (deviceId d) = dId AND 0xFFE0) ds"

text \<open>
  The address ranges and flash tags of the active profile, those of the built-in
  default and those \<^verbatim>\<open>_init_device\<close> derives from a table entry.
\<close>

definition ranges ::
  "pic \<Rightarrow> 64 word \<times> 64 word \<times> 64 word \<times> 64 word \<times> 64 word \<times> 64 word \<times> 64 word
     \<times> 32 word \<times> 8 word \<times> 8 word" where
  "ranges s =
     (programEnd s, configStart s, configEnd s, dataStart s, dataEnd s,
      reservedStart s, reservedEnd s, configSave s, progFlashType s, dataFlashType s)"

definition default_ranges ::
  "pic_io \<Rightarrow> 64 word \<times> 64 word \<times> 64 word \<times> 64 word \<times> 64 word \<times> 64 word \<times> 64 word
     \<times> 32 word \<times> 8 word \<times> 8 word" where
  "default_ranges K =
     (0x07FF, 0x2000, 0x2007, 0x2100, 0x217F, 0x0800, 0x07FF, 0x0000, FLASH4 K, EEPROM K)"

definition device_ranges ::
  "deviceInfo \<Rightarrow> 64 word \<times> 64 word \<times> 64 word \<times> 64 word \<times> 64 word \<times> 64 word \<times> 64 word
     \<times> 32 word \<times> 8 word \<times> 8 word" where
  "device_ranges dev =
     (programSize dev - 1, dev_configStart dev, dev_configStart dev + configSize dev - 1,
      dev_dataStart dev, dev_dataStart dev + dataSize dev - 1,
      programSize dev - 1 - reservedWords dev + 1, programSize dev - 1,
      dev_configSave dev, dev_progFlashType dev, dev_dataFlashType dev)"

text \<open>
  The sample constants with a table whose only entry has pattern 0.
\<close>

definition legacy_io :: pic_io where
  "legacy_io =
     sample_io\<lparr>devices :=
       [\<lparr>name = ''pic16f84'', deviceId = 0, programSize = 1024,
         dev_configStart = 0x2000, configSize = 8, dev_dataStart = 0x2100, dataSize = 64,
         reservedWords = 0, dev_configSave = 0, dev_progFlashType = 4,
         dev_dataFlashType = 0\<rparr>]\<rparr>"

text \<open>
  The status codes of the responses in the trace of a session, in order; and the number
  of rounds the read loop has before it when its end address is not the largest one.
\<close>

fun status_of :: "event \<Rightarrow> SPError list" where
  "status_of (sp_tcpserver_response st b) = [st]"
| "status_of e = []"

definition statuses :: "pic \<Rightarrow> SPError list" where
  "statuses s = concat (map status_of (trace s))"

definition remaining :: "read_vars \<Rightarrow> nat" where
  "remaining v = Suc (unat (end_addr v)) - unat (start v)"



section \<open>Auxiliary facts\<close>

lemma profile_frame: "frame t = frame s \<Longrightarrow> profile t = profile s"
  by (cases s, cases t) (simp add: frame_def profile_def)

lemma profile_fields:
  assumes "profile t = profile s"
  shows "programEnd t = programEnd s" and "configStart t = configStart s"
    and "configEnd t = configEnd s" and "dataStart t = dataStart s"
    and "dataEnd t = dataEnd s" and "reservedStart t = reservedStart s"
    and "reservedEnd t = reservedEnd s" and "configSave t = configSave s"
    and "progFlashType t = progFlashType s" and "dataFlashType t = dataFlashType s"
    and "data_in t = data_in s"
  using assms by (cases s, cases t, simp add: profile_def)+

lemma frame_fields:
  assumes "frame t = frame s"
  shows "pic_state t = pic_state s" and "program_counter t = program_counter s"
  using assms by (cases s, cases t, simp add: frame_def)+

lemma frame_emits [simp]: "frame (emits es s) = frame s"
  by (simp add: frame_def emits_def)

lemma frame_send_command_loop [simp]: "frame (send_command_loop n cmd s) = frame s"
  by (induction n arbitrary: cmd s) simp_all

lemma frame_send_command [simp]: "frame (send_command cmd s) = frame s"
  by (simp add: send_command_def)

lemma frame_send_simple_command [simp]: "frame (send_simple_command cmd s) = frame s"
  by (simp add: send_simple_command_def)

lemma frame_send_write_command_loop [simp]: "frame (send_write_command_loop n d s) = frame s"
  by (induction n arbitrary: d s) simp_all

lemma frame_send_write_command [simp]: "frame (send_write_command cmd d s) = frame s"
  by (simp add: send_write_command_def)

lemma frame_samples [simp]: "frame (s\<lparr>samples := k\<rparr>) = frame s"
  by (simp add: frame_def)

lemma frame_send_read_command_loop [simp]:
  "frame (snd (send_read_command_loop n d s)) = frame s"
  by (induction n arbitrary: d s) (simp_all add: GPIO_GET_def Let_def)

lemma frame_send_read_command [simp]: "frame (snd (send_read_command cmd s)) = frame s"
  by (simp add: send_read_command_def Let_def split_beta)

lemmas codec_state [simp] =
  frame_fields [OF frame_emits] frame_fields [OF frame_send_command]
  frame_fields [OF frame_send_simple_command] frame_fields [OF frame_send_write_command]
  frame_fields [OF frame_send_read_command]

lemma profile_hw [simp]:
  "profile (s\<lparr>pic_state := st\<rparr>) = profile s"
  "profile (s\<lparr>program_counter := pc\<rparr>) = profile s"
  "profile (s\<lparr>trace := tr\<rparr>) = profile s"
  "profile (s\<lparr>samples := k\<rparr>) = profile s"
  by (simp_all add: profile_def)

lemma profile_codec [simp]:
  "profile (emits es s) = profile s"
  "profile (send_command cmd s) = profile s"
  "profile (send_simple_command cmd s) = profile s"
  "profile (send_write_command cmd d s) = profile s"
  "profile (snd (send_read_command cmd s)) = profile s"
  by (rule profile_frame, simp)+

lemma profile_enter [simp]: "profile (enter_program_mode s) = profile s"
  by (simp add: enter_program_mode_def)

lemma profile_exit [simp]: "profile (exit_program_mode s) = profile s"
  by (simp add: exit_program_mode_def)

lemma profile_load_config [simp]: "profile (load_config K s) = profile s"
  by (simp add: load_config_def)

lemma profile_advance [simp]: "profile (advance_program_counter K addr s) = profile s"
  by (induction K addr s rule: advance_program_counter.induct)
     (subst advance_program_counter.simps, simp add: Let_def)

lemma profile_set_program_counter [simp]: "profile (set_program_counter K addr s) = profile s"
  by (simp add: set_program_counter_def Let_def)

lemmas set_program_counter_bounds [simp] = profile_fields [OF profile_set_program_counter]

lemma advance_state [simp]:
  "pic_state (advance_program_counter K addr s) = pic_state s"
  by (induction K addr s rule: advance_program_counter.induct)
     (subst advance_program_counter.simps, simp add: Let_def)

lemma advance_counter:
  "program_counter (advance_program_counter K addr s) =
     (if program_counter s < addr then addr else program_counter s)"
proof (induction K addr s rule: advance_program_counter.induct)
  case (1 K addr s)
  show ?case
  proof (cases "program_counter s < addr")
    case True
    then have "program_counter s + 1 \<le> addr"
      by (rule inc_le)
    with True 1 show ?thesis
      by (subst advance_program_counter.simps) (auto simp add: Let_def)
  next
    case False
    then show ?thesis
      by (subst advance_program_counter.simps) simp
  qed
qed

lemma advance_counter_le:
  "program_counter s \<le> addr \<Longrightarrow> program_counter (advance_program_counter K addr s) = addr"
  by (auto simp add: advance_counter)

lemma enter_state [simp]:
  "pic_state (enter_program_mode s) = (if pic_state s = STATE_IDLE then STATE_PROGRAM else pic_state s)"
  "program_counter (enter_program_mode s) = (if pic_state s = STATE_IDLE then 0 else program_counter s)"
  by (simp_all add: enter_program_mode_def)

lemma exit_state [simp]:
  "pic_state (exit_program_mode s) = STATE_IDLE"
  "program_counter (exit_program_mode s) = (if pic_state s = STATE_IDLE then program_counter s else 0)"
  by (simp_all add: exit_program_mode_def)

lemma load_config_state [simp]:
  "pic_state (load_config K s) = STATE_CONFIG"
  "program_counter (load_config K s) = program_counter s"
  by (simp_all add: load_config_def)

lemma set_program_counter_by_region:
  "set_program_counter K addr s =
     advance_program_counter K (offset_of s addr)
       (if region_of s addr = Config then switch_to_config K (offset_of s addr) s
        else switch_to_program (offset_of s addr) s)"
  by (simp add: set_program_counter_def region_of_def offset_of_def Let_def
        switch_to_config_def switch_to_program_def)

lemma switch_to_program_state:
  "pic_state (switch_to_program off s) = STATE_PROGRAM"
  "program_counter (switch_to_program off s) \<le> off"
  by (auto simp add: switch_to_program_def not_less)

lemma switch_to_config_state:
  "pic_state (switch_to_config K off s) = STATE_CONFIG"
  "program_counter (switch_to_config K off s) \<le> off"
  by (cases "pic_state s"; auto simp add: switch_to_config_def not_less)+

lemma set_program_counter_target:
  "program_counter (set_program_counter K addr s) = offset_of s addr \<and>
   pic_state (set_program_counter K addr s) = state_of_region (region_of s addr)"
  unfolding set_program_counter_by_region
  by (cases "region_of s addr")
     (simp_all add: advance_counter_le switch_to_program_state switch_to_config_state
        state_of_region_def)

lemma sixteen_bit_step:
  assumes "sixteen_bit d"
  shows "sixteen_bit (drop_bit (Suc 0) d)" and "sixteen_bit (drop_bit (Suc 0) d OR 0x8000)"
proof -
  have hi: "n < 16" if "bit d (Suc n)" for n
  proof -
    from assms have "take_bit 16 d = d"
      by (simp add: sixteen_bit_def)
    with that have "bit (take_bit 16 d) (Suc n)"
      by (simp only:)
    then show ?thesis
      by (simp add: bit_take_bit_iff)
  qed
  show "sixteen_bit (drop_bit (Suc 0) d)"
    unfolding sixteen_bit_def
    by (rule bit_word_eqI) (auto simp add: bit_take_bit_iff bit_drop_bit_eq dest: hi)
  have top: "(0x8000 :: 32 word) = push_bit 15 1"
    by simp
  show "sixteen_bit (drop_bit (Suc 0) d OR 0x8000)"
    unfolding sixteen_bit_def top
    by (rule bit_word_eqI)
       (auto simp add: bit_take_bit_iff bit_drop_bit_eq bit_or_iff bit_push_bit_iff dest: hi)
qed

lemma send_read_command_loop_sixteen_bit:
  "sixteen_bit d \<Longrightarrow> sixteen_bit (fst (send_read_command_loop n d s))"
  by (induction n arbitrary: d s)
     (simp_all add: Let_def GPIO_GET_def sixteen_bit_step)

lemma send_read_command_sixteen_bit: "sixteen_bit (fst (send_read_command cmd s))"
proof -
  have "sixteen_bit 0"
    by (simp add: sixteen_bit_def)
  then show ?thesis
    by (simp add: send_read_command_def Let_def split_beta send_read_command_loop_sixteen_bit)
qed

lemma send_read_command_loop_data_in [simp]:
  "data_in (snd (send_read_command_loop n d s)) = data_in s"
  by (rule profile_fields [OF profile_frame]) simp

lemma send_read_command_loop_constant:
  "data_in s = (\<lambda>k. b) \<Longrightarrow> fst (send_read_command_loop n d s) = shift_in b n d"
  by (induction n arbitrary: d s) (simp_all add: Let_def GPIO_GET_def emits_def)

lemma shift_in_16: "shift_in True 16 0 = 0xFFFF" "shift_in False 16 0 = 0"
  by code_simp+

lemma send_read_command_constant:
  "data_in s = (\<lambda>k. b) \<Longrightarrow> fst (send_read_command cmd s) = (if b then 0xFFFF else 0)"
  using profile_fields(11) [OF profile_codec(2), of cmd s]
  by (simp add: send_read_command_def Let_def split_beta send_read_command_loop_constant
      shift_in_16 emits_def)

lemma send_read_command_high:
  "data_in s = (\<lambda>k. True) \<Longrightarrow> fst (send_read_command cmd s) = 0xFFFF"
  by (simp add: send_read_command_constant)

lemma send_read_command_low:
  "data_in s = (\<lambda>k. False) \<Longrightarrow> fst (send_read_command cmd s) = 0"
  by (simp add: send_read_command_constant)

lemma read_word_unfold:
  "read_word K addr s =
     (let s1 = set_program_counter K addr s
      in if dataStart s \<le> addr \<and> addr \<le> dataEnd s then
           (let (raw, s2) = send_read_command (CMD_READ_DATA_MEMORY K) s1
            in (drop_bit 1 raw AND 0x00FF, s2))
         else
           (let (raw, s2) = send_read_command (CMD_READ_PROGRAM_MEMORY K) s1
            in (drop_bit 1 raw AND 0x3FFF, s2)))"
  by (simp add: read_word_def Let_def)

lemma read_config_word_unfold:
  "read_config_word K off s =
     (let (raw, s2) = send_read_command (CMD_READ_PROGRAM_MEMORY K)
                        (advance_program_counter K off (switch_to_config K off s))
      in (drop_bit 1 raw AND 0x3FFF, s2))"
  by (simp add: read_config_word_def switch_to_config_def Let_def)

lemma read_loop_done: "\<not> start v \<le> end_addr v \<Longrightarrow> read_loop K v = Some v"
  by (subst read_loop.simps) simp

lemma read_loop_step: "start v \<le> end_addr v \<Longrightarrow> read_loop K v = read_loop K (read_body K v)"
  by (subst read_loop.simps) simp

lemma deserialize_serialize:
  "bigendian_deserialize_uint32 (bigendian_serialize_uint32 m off w) off = w"
proof (rule bit_word_eqI)
  fix n
  assume "n < LENGTH(32)"
  then consider "n < 8" | "8 \<le> n" "n < 16" | "16 \<le> n" "n < 24" | "24 \<le> n" "n < 32"
    by fastforce
  then show "bit (bigendian_deserialize_uint32 (bigendian_serialize_uint32 m off w) off) n
               = bit w n"
    unfolding bigendian_deserialize_uint32_def bigendian_serialize_uint32_def
    by cases
       (auto simp add: bit_or_iff bit_push_bit_iff bit_ucast_iff bit_drop_bit_eq
          le_add_diff_inverse)
qed

lemma request_decodes [simp]:
  "bigendian_deserialize_uint32 (body (request a b)) 0 = a"
  "bigendian_deserialize_uint32 (body (request a b)) 8 = b"
proof -
  show "bigendian_deserialize_uint32 (body (request a b)) 8 = b"
    by (simp add: request_def deserialize_serialize)
  have "bigendian_deserialize_uint32 (body (request a b)) 0
          = bigendian_deserialize_uint32 (bigendian_serialize_uint32 (\<lambda>i. 0) 0 a) 0"
    by (simp add: request_def bigendian_deserialize_uint32_def bigendian_serialize_uint32_def)
  then show "bigendian_deserialize_uint32 (body (request a b)) 0 = a"
    by (simp add: deserialize_serialize)
qed

lemma quiet_power_event [simp]: "quiet power_event"
  unfolding quiet_def power_event_def power_down_def power_up_def
  by (intro allI impI, case_tac e) auto

lemma quiet_is_response [simp]: "quiet is_response"
  unfolding quiet_def
  by (intro allI impI, case_tac e) auto

lemma quiet_filter:
  "quiet P \<Longrightarrow> codec_event e \<Longrightarrow> filter P (es @ [e]) = filter P es"
  by (simp add: quiet_def)

lemma quiet_send_command_loop:
  "quiet P \<Longrightarrow> filter P (trace (send_command_loop n cmd s)) = filter P (trace s)"
  by (induction n arbitrary: cmd s) (simp_all add: emits_def quiet_def)

lemma quiet_send_command:
  "quiet P \<Longrightarrow> filter P (trace (send_command cmd s)) = filter P (trace s)"
  by (simp add: send_command_def quiet_send_command_loop)

lemma quiet_send_simple_command:
  "quiet P \<Longrightarrow> filter P (trace (send_simple_command cmd s)) = filter P (trace s)"
  by (simp add: send_simple_command_def emits_def quiet_send_command) (simp add: quiet_def)

lemma quiet_send_write_command_loop:
  "quiet P \<Longrightarrow> filter P (trace (send_write_command_loop n d s)) = filter P (trace s)"
  by (induction n arbitrary: d s) (simp_all add: emits_def quiet_def)

lemma quiet_send_write_command:
  "quiet P \<Longrightarrow> filter P (trace (send_write_command cmd d s)) = filter P (trace s)"
  by (simp add: send_write_command_def emits_def quiet_send_command
      quiet_send_write_command_loop) (simp add: quiet_def)

lemma quiet_send_read_command_loop:
  "quiet P \<Longrightarrow> filter P (trace (snd (send_read_command_loop n d s))) = filter P (trace s)"
  by (induction n arbitrary: d s) (simp_all add: emits_def GPIO_GET_def Let_def quiet_def)

lemma quiet_send_read_command:
  "quiet P \<Longrightarrow> filter P (trace (snd (send_read_command cmd s))) = filter P (trace s)"
  by (simp add: send_read_command_def emits_def Let_def split_beta quiet_send_command
      quiet_send_read_command_loop) (simp add: quiet_def)

lemma quiet_load_config:
  "quiet P \<Longrightarrow> filter P (trace (load_config K s)) = filter P (trace s)"
  by (simp add: load_config_def quiet_send_write_command)

lemma quiet_advance:
  "quiet P \<Longrightarrow> filter P (trace (advance_program_counter K addr s)) = filter P (trace s)"
  by (induction K addr s rule: advance_program_counter.induct)
     (subst advance_program_counter.simps, simp add: Let_def quiet_send_simple_command)

lemma power_events_codec [simp]:
  "power_events (send_command cmd s) = power_events s"
  "power_events (send_simple_command cmd s) = power_events s"
  "power_events (send_write_command cmd d s) = power_events s"
  "power_events (snd (send_read_command cmd s)) = power_events s"
  "power_events (load_config K s) = power_events s"
  "power_events (advance_program_counter K addr s) = power_events s"
  "power_events (s\<lparr>program_counter := pc\<rparr>) = power_events s"
  "power_events (s\<lparr>pic_state := st\<rparr>) = power_events s"
  by (simp_all add: power_events_def quiet_send_command quiet_send_simple_command
      quiet_send_write_command quiet_send_read_command quiet_load_config quiet_advance)

lemma power_events_enter [simp]:
  "power_events (enter_program_mode s) =
     power_events s @ (if pic_state s = STATE_IDLE then [power_up] else [])"
  by (simp add: power_events_def enter_program_mode_def emits_def power_event_def
      power_up_def power_down_def)

lemma power_events_exit [simp]:
  "power_events (exit_program_mode s) =
     power_events s @ (if pic_state s = STATE_IDLE then [] else [power_down])"
  by (simp add: power_events_def exit_program_mode_def emits_def power_event_def
      power_up_def power_down_def)

lemma responses_codec [simp]:
  "responses (send_command cmd s) = responses s"
  "responses (send_simple_command cmd s) = responses s"
  "responses (send_write_command cmd d s) = responses s"
  "responses (snd (send_read_command cmd s)) = responses s"
  "responses (load_config K s) = responses s"
  "responses (advance_program_counter K addr s) = responses s"
  "responses (s\<lparr>program_counter := pc\<rparr>) = responses s"
  "responses (s\<lparr>pic_state := st\<rparr>) = responses s"
  by (simp_all add: responses_def quiet_send_command quiet_send_simple_command
      quiet_send_write_command quiet_send_read_command quiet_load_config quiet_advance)

lemma responses_enter [simp]: "responses (enter_program_mode s) = responses s"
  by (simp add: responses_def enter_program_mode_def emits_def)

lemma responses_exit [simp]: "responses (exit_program_mode s) = responses s"
  by (simp add: responses_def exit_program_mode_def emits_def)

lemma responses_emits [simp]: "responses (emits es s) = responses s @ filter is_response es"
  by (simp add: responses_def emits_def)

lemma responses_set_program_counter [simp]:
  "responses (set_program_counter K addr s) = responses s"
  by (simp add: set_program_counter_by_region switch_to_config_def switch_to_program_def)

lemma responses_read_word [simp]: "responses (snd (read_word K addr s)) = responses s"
  by (simp add: read_word_unfold Let_def split_beta)

lemma responses_read_config_word [simp]:
  "responses (snd (read_config_word K addr s)) = responses s"
  by (simp add: read_config_word_unfold Let_def split_beta switch_to_config_def)

lemma power_events_switch_to_program:
  "power_events (switch_to_program off s) =
     power_events s @
       (if pic_state s = STATE_IDLE then [power_up]
        else if pic_state s \<noteq> STATE_PROGRAM \<or> off < program_counter s
          then [power_down, power_up]
        else [])"
  by (simp add: switch_to_program_def)

lemma power_events_switch_to_config:
  "power_events (switch_to_config K off s) =
     power_events s @
       (if pic_state s = STATE_IDLE then [power_up]
        else if pic_state s = STATE_CONFIG \<and> off < program_counter s
          then [power_down, power_up]
        else [])"
  by (cases "pic_state s"; simp add: switch_to_config_def)

lemma region_of_profile:
  assumes "profile t = profile s"
  shows "region_of t a = region_of s a" and "offset_of t a = offset_of s a"
  using profile_fields [OF assms]
  by (simp_all add: region_of_def offset_of_def in_data_def in_config_def)

lemma region_of_set_program_counter [simp]:
  "region_of (set_program_counter K a s) b = region_of s b"
  "offset_of (set_program_counter K a s) b = offset_of s b"
  by (rule region_of_profile, simp)+

lemma word_diff_less_mono: "(b :: 64 word) \<le> x \<Longrightarrow> x < y \<Longrightarrow> x - b < y - b"
  by unat_arith

lemma offset_of_mono:
  assumes "region_of s a1 = region_of s a2" and "a1 < a2"
  shows "offset_of s a1 < offset_of s a2"
proof (cases "region_of s a2")
  case Program
  with assms show ?thesis by (simp add: offset_of_def)
next
  case Config
  with assms have "in_config s a1"
    by (auto simp add: region_of_def split: if_splits)
  then have "configStart s \<le> a1"
    by (simp add: in_config_def)
  with assms Config show ?thesis
    by (simp add: offset_of_def word_diff_less_mono)
next
  case Data
  with assms have "in_data s a1"
    by (auto simp add: region_of_def split: if_splits)
  then have "dataStart s \<le> a1"
    by (simp add: in_data_def)
  with assms Data show ?thesis
    by (simp add: offset_of_def word_diff_less_mono)
qed

lemma power_events_set_program_counter:
  "power_events (set_program_counter K addr s) =
     power_events s @
       (if pic_state s = STATE_IDLE then [power_up]
        else if reset_condition s addr then [power_down, power_up]
        else [])"
  by (cases "pic_state s";
      simp add: set_program_counter_by_region power_events_switch_to_program
        power_events_switch_to_config reset_condition_def)

lemma reset_condition_full_reset_cycle:
  "reset_condition s addr \<Longrightarrow> full_reset_cycle K addr s"
  by (cases "pic_state s";
      auto simp add: reset_condition_def full_reset_cycle_def set_program_counter_by_region
        reinitialize_def switch_to_config_def switch_to_program_def exit_program_mode_def
        split: if_splits)

lemma no_reset_condition:
  "\<not> reset_condition s addr \<Longrightarrow>
     set_program_counter K addr s =
       advance_program_counter K (offset_of s addr)
         (if region_of s addr = Config \<and> pic_state s = STATE_PROGRAM
          then (load_config K s)\<lparr>program_counter := 0\<rparr> else s)"
  by (cases "pic_state s";
      auto simp add: reset_condition_def set_program_counter_by_region
        switch_to_config_def switch_to_program_def split: if_splits)

lemma power_events_reinitialize:
  "power_events (reinitialize K r s) =
     power_events s @ (if pic_state s = STATE_IDLE then [power_up] else [power_down, power_up])"
  by (simp add: reinitialize_def Let_def)

lemma full_reset_cycle_needs_condition:
  assumes "pic_state s \<noteq> STATE_IDLE" and "full_reset_cycle K addr s"
  shows "reset_condition s addr"
proof (rule ccontr)
  assume "\<not> reset_condition s addr"
  with assms(1) have "power_events (set_program_counter K addr s) = power_events s"
    by (simp add: power_events_set_program_counter)
  moreover from assms(2) have "power_events (set_program_counter K addr s)
      = power_events (advance_program_counter K (offset_of s addr)
          (reinitialize K (region_of s addr) s))"
    by (simp add: full_reset_cycle_def)
  ultimately show False
    using assms(1) by (simp add: power_events_reinitialize)
qed

lemma pic_initial_fields [simp]:
  "pic_state (pic_initial K din) = STATE_IDLE"
  "program_counter (pic_initial K din) = 0"
  "configStart (pic_initial K din) = 0x2000"
  "configEnd (pic_initial K din) = 0x2007"
  "dataStart (pic_initial K din) = 0x2100"
  "dataEnd (pic_initial K din) = 0x217F"
  "data_in (pic_initial K din) = din"
  "trace (pic_initial K din) = []"
  by (simp_all add: pic_initial_def)

lemma pic_initial_regions:
  "region_of (pic_initial K din) 5 = Program"
  "region_of (pic_initial K din) 2 = Program"
  "region_of (pic_initial K din) 3 = Program"
  "region_of (pic_initial K din) 7 = Program"
  "region_of (pic_initial K din) 0x2000 = Config"
  "region_of (pic_initial K din) 0x2105 = Data"
  "offset_of (pic_initial K din) 5 = 5"
  "offset_of (pic_initial K din) 2 = 2"
  "offset_of (pic_initial K din) 0x2000 = 0"
  "offset_of (pic_initial K din) 0x2105 = 5"
  by (simp_all add: region_of_def offset_of_def in_data_def in_config_def)

lemma in_program_at_5_fields:
  "pic_state in_program_at_5 = STATE_PROGRAM"
  "program_counter in_program_at_5 = 5"
  "region_of in_program_at_5 a = region_of (pic_initial sample_io (\<lambda>k. False)) a"
  "offset_of in_program_at_5 a = offset_of (pic_initial sample_io (\<lambda>k. False)) a"
  using set_program_counter_target [of sample_io 5 "pic_initial sample_io (\<lambda>k. False)"]
  by (simp_all add: in_program_at_5_def pic_initial_regions state_of_region_def)

lemma detect_unfold:
  "pic_command_detect_device K req s =
     (case read_id_words K s of
        ((u0, u1, u2, u3, dev, cfg), s6) \<Rightarrow>
          if dev = 0 \<or> dev = 0x3FFF then
            (case detect_scan K (u0 OR u1 OR u2 OR u3 OR cfg) 0 s6 of
               (word, s7) \<Rightarrow>
                 if word = 0
                 then (None, exit_program_mode (emits [os_printf (''ERROR'' @ CRLF) []] s7))
                 else detect_finish K 0 cfg s7)
          else detect_finish K dev cfg s6)"
  unfolding pic_command_detect_device_def read_id_words_def
  by (simp add: Let_def split_beta)

lemma find_device_lookup:
  "find_device ds dId s =
     (case lookup_device ds dId of
        None \<Rightarrow> (None, s)
      | Some d \<Rightarrow> (Some d, emits [sp_tcpserver_response SP_OK (map of_char (name d))] s))"
  by (induction ds) (simp_all add: lookup_device_def)

lemma detect_scan_skip: "word \<noteq> 0 \<Longrightarrow> detect_scan K word addr s = (word, s)"
  by (subst detect_scan.simps) simp

lemma profile_read_word [simp]: "profile (snd (read_word K addr s)) = profile s"
  by (simp add: read_word_unfold Let_def split_beta)

lemma profile_read_config_word [simp]: "profile (snd (read_config_word K addr s)) = profile s"
  by (simp add: read_config_word_unfold Let_def split_beta switch_to_config_def)

lemma profile_detect_scan [simp]: "profile (snd (detect_scan K word addr s)) = profile s"
  by (induction K word addr s rule: detect_scan.induct)
     (subst detect_scan.simps, simp add: Let_def split_beta)

lemma responses_detect_scan [simp]: "responses (snd (detect_scan K word addr s)) = responses s"
  by (induction K word addr s rule: detect_scan.induct)
     (subst detect_scan.simps, simp add: Let_def split_beta)

lemma profile_read_id_words [simp]: "profile (snd (read_id_words K s)) = profile s"
  by (simp add: read_id_words_def Let_def split_beta)

lemma responses_read_id_words [simp]: "responses (snd (read_id_words K s)) = responses s"
  by (simp add: read_id_words_def Let_def split_beta)

lemma responses_init_device [simp]: "responses (init_device dev s) = responses s"
  by (simp add: init_device_def Let_def responses_def emits_def)

lemma pic_state_init_device [simp]: "pic_state (init_device dev s) = pic_state s"
  by (simp add: init_device_def Let_def emits_def)

lemma responses_reset_defaults [simp]: "responses (reset_defaults K s) = responses s"
  by (simp add: reset_defaults_def responses_def)

lemma ranges_init_device [simp]: "ranges (init_device dev s) = device_ranges dev"
  by (simp add: ranges_def device_ranges_def init_device_def Let_def emits_def)

lemma ranges_reset_defaults [simp]: "ranges (reset_defaults K s) = default_ranges K"
  by (simp add: ranges_def default_ranges_def reset_defaults_def)

lemma ranges_trace [simp]:
  "ranges (emits es s) = ranges s"
  "ranges (exit_program_mode s) = ranges s"
  by (simp_all add: ranges_def emits_def exit_program_mode_def)

lemma detect_finish_result:
  "case lookup_device (devices K) dId of
     None \<Rightarrow>
       fst (detect_finish K dId cfg s7) = Some SP_ERR_DEVICE_NOT_DETECTED \<and>
       responses (snd (detect_finish K dId cfg s7))
         = responses s7 @ [sp_tcpserver_response SP_ERR_DEVICE_NOT_DETECTED []] \<and>
       pic_state (snd (detect_finish K dId cfg s7)) = STATE_IDLE \<and>
       ranges (snd (detect_finish K dId cfg s7)) = default_ranges K
   | Some d \<Rightarrow>
       fst (detect_finish K dId cfg s7) = Some SP_OK \<and>
       responses (snd (detect_finish K dId cfg s7))
         = responses s7 @ [sp_tcpserver_response SP_OK (map of_char (name d))] \<and>
       pic_state (snd (detect_finish K dId cfg s7)) = STATE_IDLE \<and>
       ranges (snd (detect_finish K dId cfg s7)) = device_ranges d"
  by (cases "lookup_device (devices K) dId")
     (simp_all add: detect_finish_def find_device_lookup Let_def)

lemmas codec_keeps [simp] =
  profile_fields [OF profile_codec(1)] profile_fields [OF profile_codec(2)]
  profile_fields [OF profile_codec(3)] profile_fields [OF profile_codec(4)]
  profile_fields [OF profile_codec(5)]

lemmas state_machine_keeps [simp] =
  profile_fields [OF profile_enter] profile_fields [OF profile_exit]
  profile_fields [OF profile_load_config] profile_fields [OF profile_advance]

lemmas read_word_keeps [simp] = profile_fields [OF profile_read_word]

lemmas read_config_word_keeps [simp] = profile_fields [OF profile_read_config_word]

lemmas detect_scan_keeps [simp] = profile_fields [OF profile_detect_scan]

lemmas read_id_words_keeps [simp] = profile_fields [OF profile_read_id_words]

lemma mask_values:
  "drop_bit 1 (0xFFFF :: 32 word) AND 0x3FFF = 0x3FFF"
  "drop_bit 1 (0xFFFF :: 32 word) AND 0x00FF = 0x00FF"
  "drop_bit 1 (0 :: 32 word) AND 0x3FFF = 0"
  "drop_bit 1 (0 :: 32 word) AND 0x00FF = 0"
  by code_simp+

lemma read_config_word_high:
  assumes "data_in s = (\<lambda>k. True)"
  shows "fst (read_config_word K addr s) = 0x3FFF"
proof -
  have "data_in (advance_program_counter K addr (switch_to_config K addr s)) = (\<lambda>k. True)"
    using assms by (simp add: switch_to_config_def)
  then have "fst (send_read_command (CMD_READ_PROGRAM_MEMORY K)
               (advance_program_counter K addr (switch_to_config K addr s))) = 0xFFFF"
    by (rule send_read_command_high)
  then show ?thesis
    by (simp add: read_config_word_unfold Let_def split_beta)
qed

lemma read_config_word_low:
  assumes "data_in s = (\<lambda>k. False)"
  shows "fst (read_config_word K addr s) = 0"
proof -
  have "data_in (advance_program_counter K addr (switch_to_config K addr s)) = (\<lambda>k. False)"
    using assms by (simp add: switch_to_config_def)
  then have "fst (send_read_command (CMD_READ_PROGRAM_MEMORY K)
               (advance_program_counter K addr (switch_to_config K addr s))) = 0"
    by (rule send_read_command_low)
  then show ?thesis
    by (simp add: read_config_word_unfold Let_def split_beta)
qed

lemma read_word_low:
  assumes "data_in s = (\<lambda>k. False)"
  shows "fst (read_word K addr s) = 0"
proof -
  have "data_in (set_program_counter K addr s) = (\<lambda>k. False)"
    using assms by simp
  then have "fst (send_read_command cmd (set_program_counter K addr s)) = 0" for cmd
    by (rule send_read_command_low)
  then show ?thesis
    by (simp add: read_word_unfold Let_def split_beta)
qed

lemma detect_scan_low:
  "data_in s = (\<lambda>k. False) \<Longrightarrow> fst (detect_scan K 0 addr s) = 0"
proof (induction K "0 :: 32 word" addr s rule: detect_scan.induct)
  case (1 K addr s)
  show ?case
  proof (cases "addr < 16")
    case True
    obtain w s1 where r: "read_word K (ucast addr) s = (w, s1)"
      by (cases "read_word K (ucast addr) s")
    from r "1.prems" have w: "w = 0"
      using read_word_low [of s K "ucast addr"] by simp
    from r "1.prems" have d: "data_in s1 = (\<lambda>k. False)"
      using read_word_keeps(11) [of K "ucast addr" s] by simp
    from True r w d "1.hyps" [of "(w, s1)" w s1] show ?thesis
      by (subst detect_scan.simps) simp
  next
    case False
    then show ?thesis
      by (subst detect_scan.simps) simp
  qed
qed

lemma read_id_words_low:
  assumes "data_in s = (\<lambda>k. False)"
  shows "fst (read_id_words K s) = (0, 0, 0, 0, 0, 0)"
proof -
  have "fst (read_config_word K a t) = 0" if "profile t = profile s" for a t
    using profile_fields(11) [OF that] assms by (simp add: read_config_word_low)
  then show ?thesis
    by (simp add: read_id_words_def Let_def split_beta)
qed

lemma read_id_words_high:
  assumes "data_in s = (\<lambda>k. True)"
  shows "fst (read_id_words K s) = (0x3FFF, 0x3FFF, 0x3FFF, 0x3FFF, 0x3FFF, 0x3FFF)"
proof -
  have "fst (read_config_word K a t) = 0x3FFF" if "profile t = profile s" for a t
    using profile_fields(11) [OF that] assms by (simp add: read_config_word_high)
  then show ?thesis
    by (simp add: read_id_words_def Let_def split_beta)
qed

lemma ranges_profile: "profile t = profile s \<Longrightarrow> ranges t = ranges s"
  using profile_fields [of t s] by (simp add: ranges_def)

lemma detect_nothing_found:
  assumes ids: "read_id_words K s = ((u0, u1, u2, u3, dev, cfg), s6)"
    and dev: "dev = 0 \<or> dev = 0x3FFF"
    and zero: "u0 OR u1 OR u2 OR u3 OR cfg = 0"
    and scan: "fst (detect_scan K 0 0 s6) = 0"
  shows "pic_command_detect_device K req s =
           (None, exit_program_mode
                    (emits [os_printf (''ERROR'' @ CRLF) []] (snd (detect_scan K 0 0 s6))))"
  using assms by (auto simp add: detect_unfold split_beta)

lemma after_read_id_words:
  assumes "read_id_words K s = (ws, s6)"
  shows "responses s6 = responses s" and "profile s6 = profile s"
  using responses_read_id_words [of K s] profile_read_id_words [of K s] assms by simp_all

lemma detect_legacy:
  assumes ids: "read_id_words K s = ((u0, u1, u2, u3, dev, cfg), s6)"
    and dev: "dev = 0 \<or> dev = 0x3FFF"
    and nz: "u0 OR u1 OR u2 OR u3 OR cfg \<noteq> 0"
  shows "pic_command_detect_device K req s = detect_finish K 0 cfg s6"
  using assms by (auto simp add: detect_unfold detect_scan_skip)

lemma detect_legacy_result:
  assumes ids: "read_id_words K s = ((u0, u1, u2, u3, dev, cfg), s6)"
    and dev: "dev = 0 \<or> dev = 0x3FFF"
    and nz: "u0 OR u1 OR u2 OR u3 OR cfg \<noteq> 0"
  shows "pic_command_detect_device K req s = detect_finish K 0 cfg s6 \<and>
         (case lookup_device (devices K) 0 of
            None \<Rightarrow>
              fst (pic_command_detect_device K req s) = Some SP_ERR_DEVICE_NOT_DETECTED \<and>
              responses (snd (pic_command_detect_device K req s))
                = responses s @ [sp_tcpserver_response SP_ERR_DEVICE_NOT_DETECTED []] \<and>
              pic_state (snd (pic_command_detect_device K req s)) = STATE_IDLE \<and>
              ranges (snd (pic_command_detect_device K req s)) = default_ranges K
          | Some d \<Rightarrow>
              fst (pic_command_detect_device K req s) = Some SP_OK \<and>
              responses (snd (pic_command_detect_device K req s))
                = responses s @ [sp_tcpserver_response SP_OK (map of_char (name d))] \<and>
              pic_state (snd (pic_command_detect_device K req s)) = STATE_IDLE \<and>
              ranges (snd (pic_command_detect_device K req s)) = device_ranges d)"
  using detect_finish_result [of K 0 cfg s6]
  by (cases "lookup_device (devices K) 0")
     (simp_all add: detect_legacy [OF assms] after_read_id_words [OF ids])

lemma lookup_sample: "lookup_device (devices sample_io) 0 = None"
  by (simp add: lookup_device_def sample_io_def)

lemma lookup_legacy:
  "\<exists>d. lookup_device (devices legacy_io) 0 = Some d \<and> name d = ''pic16f84''"
  by (simp add: lookup_device_def sample_io_def legacy_io_def)

lemma responses_initial [simp]: "responses (pic_initial K din) = []"
  by (simp add: responses_def pic_initial_def)

lemma statuses_responses: "statuses s = concat (map status_of (responses s))"
proof -
  have "concat (map status_of tr) = concat (map status_of (filter is_response tr))" for tr
  proof (induction tr)
    case Nil
    show ?case by simp
  next
    case (Cons e tr)
    then show ?case by (cases e) simp_all
  qed
  then show ?thesis
    by (simp add: statuses_def responses_def)
qed

lemma statuses_emits [simp]: "statuses (emits es s) = statuses s @ concat (map status_of es)"
  by (simp add: statuses_def emits_def)

lemma statuses_read_word [simp]: "statuses (snd (read_word K addr s)) = statuses s"
  by (simp add: statuses_responses)

lemma read_body_vars:
  "start (read_body K v) = start v + 1"
  "end_addr (read_body K v) = end_addr v"
  "count (read_body K v) = count v + 1"
  "buffer (read_body K v) =
     bigendian_serialize_uint32 (buffer v) (count v * 4)
       (fst (read_word K (ucast (start v)) (session v)))"
  by (simp_all add: read_body_def Let_def split_beta)

lemma read_body_statuses:
  "statuses (session (read_body K v)) =
     statuses (session v) @ (if count v + 1 = 256 then [SP_STATUS_READ_MORE] else [])"
  by (simp add: read_body_def Let_def split_beta)

lemma read_body_profile [simp]: "profile (session (read_body K v)) = profile (session v)"
  by (simp add: read_body_def Let_def split_beta)

lemma remaining_step:
  assumes "end_addr v \<noteq> - 1" and "start v \<le> end_addr v"
  shows "remaining v = Suc (remaining (read_body K v))"
    and "unat (start (read_body K v)) \<le> Suc (unat (end_addr (read_body K v)))"
proof -
  from assms have "start v < - 1"
    by (metis word_order.extremum_strict le_less_trans not_less_iff_gr_or_eq)
  then have "unat (start v + 1) = Suc (unat (start v))"
    by (rule unat_succ_below)
  moreover from assms(2) have "unat (start v) \<le> unat (end_addr v)"
    by (simp add: word_le_nat_alt)
  ultimately show "remaining v = Suc (remaining (read_body K v))"
    and "unat (start (read_body K v)) \<le> Suc (unat (end_addr (read_body K v)))"
    by (simp_all add: remaining_def read_body_vars)
qed

lemma remaining_done:
  assumes "unat (start v) \<le> Suc (unat (end_addr v))" and "\<not> start v \<le> end_addr v"
  shows "remaining v = 0"
  using assms by (simp add: remaining_def word_le_nat_alt)

lemma read_loop_runs:
  assumes "end_addr v \<noteq> - 1" and "unat (start v) \<le> Suc (unat (end_addr v))"
  shows "\<exists>v'. read_loop K v = Some v' \<and> count v' = count v + remaining v \<and>
           statuses (session v') =
             statuses (session v) @
               (if count v < 256 \<and> 256 \<le> count v + remaining v
                then [SP_STATUS_READ_MORE] else []) \<and>
           profile (session v') = profile (session v)"
  using assms
proof (induction n \<equiv> "remaining v" arbitrary: v)
  case 0
  then have "\<not> start v \<le> end_addr v"
    by (auto simp add: remaining_def word_le_nat_alt)
  then have "read_loop K v = Some v"
    by (rule read_loop_done)
  with 0 show ?case
    by simp
next
  case (Suc n)
  from Suc.hyps(2) Suc.prems have go: "start v \<le> end_addr v"
    by (auto simp add: remaining_def word_le_nat_alt)
  let ?v1 = "read_body K v"
  note st = remaining_step [OF Suc.prems(1) go, of K]
  from st(1) Suc.hyps(2) have n: "n = remaining ?v1"
    by simp
  have e1: "end_addr ?v1 \<noteq> - 1"
    using Suc.prems(1) by (simp add: read_body_vars)
  from Suc.hyps(1) [OF n e1 st(2)] obtain v' where
    r: "read_loop K ?v1 = Some v'"
    and c: "count v' = count ?v1 + remaining ?v1"
    and s: "statuses (session v') =
              statuses (session ?v1) @
                (if count ?v1 < 256 \<and> 256 \<le> count ?v1 + remaining ?v1
                 then [SP_STATUS_READ_MORE] else [])"
    and p: "profile (session v') = profile (session ?v1)"
    by blast
  from go r have "read_loop K v = Some v'"
    by (simp add: read_loop_step)
  moreover from c st(1) have "count v' = count v + remaining v"
    by (simp add: read_body_vars)
  moreover from s st(1) have "statuses (session v') =
      statuses (session v) @
        (if count v < 256 \<and> 256 \<le> count v + remaining v then [SP_STATUS_READ_MORE] else [])"
    by (auto simp add: read_body_vars read_body_statuses)
  moreover from p have "profile (session v') = profile (session v)"
    by simp
  ultimately show ?case
    by blast
qed

lemma low_byte_values:
  "(ucast (0x3FFF :: 32 word) :: 8 word) = 0xFF"
  "(ucast (0x00FF :: 32 word) :: 8 word) = 0xFF"
  by code_simp+

lemma read_word_high_low_byte:
  assumes "data_in s = (\<lambda>k. True)"
  shows "(ucast (fst (read_word K addr s)) :: 8 word) = 0xFF"
proof -
  have "data_in (set_program_counter K addr s) = (\<lambda>k. True)"
    using assms by simp
  then have "fst (send_read_command cmd (set_program_counter K addr s)) = 0xFFFF" for cmd
    by (rule send_read_command_high)
  then have "fst (read_word K addr s) = 0x3FFF \<or> fst (read_word K addr s) = 0x00FF"
    by (simp add: read_word_unfold Let_def split_beta mask_values)
  then show ?thesis
    using low_byte_values by auto
qed

lemma serialize_low_byte: "bigendian_serialize_uint32 m off w (off + 3) = ucast w"
  by (simp add: bigendian_serialize_uint32_def)

lemma read_body_data_in [simp]: "data_in (session (read_body K v)) = data_in (session v)"
  by (rule profile_fields [OF read_body_profile])

lemma read_loop_last_store:
  assumes "end_addr v \<noteq> - 1" and "unat (start v) \<le> Suc (unat (end_addr v))"
    and "data_in (session v) = (\<lambda>k. True)" and "0 < remaining v"
  shows "\<exists>v'. read_loop K v = Some v' \<and> count v' = count v + remaining v \<and>
           buffer v' (4 * (count v + remaining v - 1) + 3) = 0xFF"
  using assms
proof (induction n \<equiv> "remaining v" arbitrary: v)
  case 0
  then show ?case
    by simp
next
  case (Suc n)
  from Suc.hyps(2) Suc.prems have go: "start v \<le> end_addr v"
    by (auto simp add: remaining_def word_le_nat_alt)
  let ?v1 = "read_body K v"
  note st = remaining_step [OF Suc.prems(1) go, of K]
  from st(1) Suc.hyps(2) have n: "n = remaining ?v1"
    by simp
  have e1: "end_addr ?v1 \<noteq> - 1"
    using Suc.prems(1) by (simp add: read_body_vars)
  have d1: "data_in (session ?v1) = (\<lambda>k. True)"
    using Suc.prems(3) by simp
  have step: "read_loop K v = read_loop K ?v1"
    using go by (rule read_loop_step)
  show ?case
  proof (cases "n = 0")
    case True
    with n st(2) have "\<not> start ?v1 \<le> end_addr ?v1"
      by (auto simp add: remaining_def word_le_nat_alt)
    then have "read_loop K ?v1 = Some ?v1"
      by (rule read_loop_done)
    moreover from True n st(1) have one: "remaining v = 1"
      by simp
    moreover have "buffer ?v1 (count v * 4 + 3) = 0xFF"
      using read_word_high_low_byte [OF Suc.prems(3)]
      by (simp add: read_body_vars serialize_low_byte)
    ultimately show ?thesis
      using step by (simp add: read_body_vars mult.commute)
  next
    case False
    with n have pos: "0 < remaining ?v1"
      by simp
    from Suc.hyps(1) [OF n e1 st(2) d1 pos] obtain v' where
      r: "read_loop K ?v1 = Some v'"
      and c: "count v' = count ?v1 + remaining ?v1"
      and b: "buffer v' (4 * (count ?v1 + remaining ?v1 - 1) + 3) = 0xFF"
      by blast
    from c st(1) have "count v' = count v + remaining v"
      by (simp add: read_body_vars)
    moreover from b st(1) have "buffer v' (4 * (count v + remaining v - 1) + 3) = 0xFF"
      by (simp add: read_body_vars)
    ultimately show ?thesis
      using step r by simp
  qed
qed

lemma max32: "(0xFFFFFFFF :: 32 word) = - 1"
  by code_simp

lemma read_init_vars [simp]:
  "start (read_init heap req s) = bigendian_deserialize_uint32 (body req) 0"
  "end_addr (read_init heap req s) = bigendian_deserialize_uint32 (body req) 8"
  "count (read_init heap req s) = 0"
  "buffer (read_init heap req s) = os_zalloc heap 1024"
  "session (read_init heap req s) = s"
  by (simp_all add: read_init_def)

lemma remaining_read_init:
  assumes "bigendian_deserialize_uint32 (body req) 0 \<le> bigendian_deserialize_uint32 (body req) 8"
  shows "remaining (read_init heap req s) =
           unat (bigendian_deserialize_uint32 (body req) 8)
             - unat (bigendian_deserialize_uint32 (body req) 0) + 1"
    and "unat (start (read_init heap req s)) \<le> Suc (unat (end_addr (read_init heap req s)))"
  using assms by (simp_all add: remaining_def word_le_nat_alt)

lemma statuses_initial [simp]: "statuses (pic_initial K din) = []"
  by (simp add: statuses_def)

lemma data_in_init_device [simp]: "data_in (init_device dev s) = data_in s"
  by (simp add: init_device_def Let_def emits_def)




section \<open>The properties\<close>

text \<open>
  C1, what the code does. For a range read whose decoded addresses satisfy
  \<open>start \<le> end\<close>, with \<open>end\<close> below \<open>0xFFFFFFFF\<close>,
  \<^verbatim>\<open>pic_command_read\<close> returns \<open>SP_OK\<close> and the responses it emits are: one
  \<open>SP_STATUS_READ_MORE\<close> if the range has at least 256 words and none otherwise,
  then one \<open>SP_STATUS_READ_DONE\<close>. The counter of accumulated words is compared
  with 256 but never set back, so a second chunk is never emitted: for 512 words there
  is one more-data response where \<open>512 div 256 = 2\<close> are claimed.
\<close>

theorem read_emits_one_chunk_at_most:
  assumes "bigendian_deserialize_uint32 (body req) 0 \<le> bigendian_deserialize_uint32 (body req) 8"
    and "bigendian_deserialize_uint32 (body req) 8 \<noteq> 0xFFFFFFFF"
  shows "\<exists>s'. pic_command_read K heap req s = Some (SP_OK, s') \<and>
           statuses s' =
             statuses s @
               (if 256 \<le> unat (bigendian_deserialize_uint32 (body req) 8)
                            - unat (bigendian_deserialize_uint32 (body req) 0) + 1
                then [SP_STATUS_READ_MORE] else []) @ [SP_STATUS_READ_DONE]"
proof -
  let ?v = "read_init heap req s"
  from assms(2) have e: "end_addr ?v \<noteq> - 1"
    by (simp only: read_init_vars max32 not_False_eq_True)
  from read_loop_runs [OF e remaining_read_init(2) [OF assms(1)], of K]
  obtain v' where r: "read_loop K ?v = Some v'"
    and st: "statuses (session v') =
               statuses s @ (if 256 \<le> remaining ?v then [SP_STATUS_READ_MORE] else [])"
    by auto
  from r have "pic_command_read K heap req s =
      Some (SP_OK, emits [sp_tcpserver_response SP_STATUS_READ_DONE []] (session v'))"
    by (simp add: pic_command_read_def)
  moreover from st have "statuses (emits [sp_tcpserver_response SP_STATUS_READ_DONE []] (session v'))
      = statuses s @ (if 256 \<le> remaining ?v then [SP_STATUS_READ_MORE] else [])
          @ [SP_STATUS_READ_DONE]"
    by simp
  ultimately show ?thesis
    unfolding remaining_read_init(1) [OF assms(1)] by blast
qed

theorem read_emits_one_chunk_at_most_witness:
  "bigendian_deserialize_uint32 (body (request 0 511)) 0
     \<le> bigendian_deserialize_uint32 (body (request 0 511)) 8
   \<and> bigendian_deserialize_uint32 (body (request 0 511)) 8 \<noteq> 0xFFFFFFFF
   \<and> (\<exists>s'. pic_command_read sample_io (\<lambda>i. 0) (request 0 511)
               (pic_initial sample_io (\<lambda>k. False)) = Some (SP_OK, s') \<and>
            statuses s' = [SP_STATUS_READ_MORE, SP_STATUS_READ_DONE])"
proof -
  have h1: "bigendian_deserialize_uint32 (body (request 0 511)) 0
              \<le> bigendian_deserialize_uint32 (body (request 0 511)) 8"
    by simp
  have h2: "bigendian_deserialize_uint32 (body (request 0 511)) 8 \<noteq> 0xFFFFFFFF"
    by simp
  from read_emits_one_chunk_at_most [OF h1 h2, of sample_io "\<lambda>i. 0"
      "pic_initial sample_io (\<lambda>k. False)"]
  have "\<exists>s'. pic_command_read sample_io (\<lambda>i. 0) (request 0 511)
               (pic_initial sample_io (\<lambda>k. False)) = Some (SP_OK, s') \<and>
            statuses s' = [SP_STATUS_READ_MORE, SP_STATUS_READ_DONE]"
    by simp
  with h1 h2 show ?thesis
    by blast
qed

text \<open>
  C2, what the code does. The word read in round \<open>i\<close> of the loop (counting from
  0) is stored at byte offset \<open>4 * i\<close> from the start of the buffer, not at
  \<open>4 * (i mod 256)\<close>: with the data line high at every sample, every word read
  has low byte \<open>0xFF\<close>, and after a run over \<open>N\<close> words that byte of the last
  word is found at offset \<open>4 * (N - 1) + 3\<close>. For 257 words this is offset 1027,
  past the 1024 bytes that were allocated and cleared.
\<close>

theorem read_stores_word_by_word:
  assumes "bigendian_deserialize_uint32 (body req) 0 \<le> bigendian_deserialize_uint32 (body req) 8"
    and "bigendian_deserialize_uint32 (body req) 8 \<noteq> 0xFFFFFFFF"
    and "data_in s = (\<lambda>k. True)"
  shows "\<exists>v'. read_loop K (read_init heap req s) = Some v' \<and>
           count v' = unat (bigendian_deserialize_uint32 (body req) 8)
                        - unat (bigendian_deserialize_uint32 (body req) 0) + 1 \<and>
           buffer v' (4 * (unat (bigendian_deserialize_uint32 (body req) 8)
                            - unat (bigendian_deserialize_uint32 (body req) 0)) + 3) = 0xFF"
proof -
  let ?v = "read_init heap req s"
  from assms(2) have e: "end_addr ?v \<noteq> - 1"
    by (simp only: read_init_vars max32 not_False_eq_True)
  have d: "data_in (session ?v) = (\<lambda>k. True)"
    using assms(3) by simp
  have pos: "0 < remaining ?v"
    by (simp add: remaining_read_init(1) [OF assms(1)])
  from read_loop_last_store [OF e remaining_read_init(2) [OF assms(1)] d pos, of K]
  show ?thesis
    by (simp add: remaining_read_init(1) [OF assms(1)])
qed

theorem read_stores_word_by_word_witness:
  "bigendian_deserialize_uint32 (body (request 0 256)) 0
     \<le> bigendian_deserialize_uint32 (body (request 0 256)) 8
   \<and> bigendian_deserialize_uint32 (body (request 0 256)) 8 \<noteq> 0xFFFFFFFF
   \<and> data_in (pic_initial sample_io (\<lambda>k. True)) = (\<lambda>k. True)
   \<and> os_zalloc (\<lambda>i. 0) 1024 1027 = 0
   \<and> (\<exists>v'. read_loop sample_io
               (read_init (\<lambda>i. 0) (request 0 256) (pic_initial sample_io (\<lambda>k. True)))
             = Some v' \<and> count v' = 257 \<and> buffer v' 1027 = 0xFF)"
proof -
  have h1: "bigendian_deserialize_uint32 (body (request 0 256)) 0
              \<le> bigendian_deserialize_uint32 (body (request 0 256)) 8"
    by simp
  have h2: "bigendian_deserialize_uint32 (body (request 0 256)) 8 \<noteq> 0xFFFFFFFF"
    by simp
  have h3: "data_in (pic_initial sample_io (\<lambda>k. True)) = (\<lambda>k. True)"
    by simp
  have z: "os_zalloc (\<lambda>i. 0) 1024 1027 = 0"
    by (simp add: os_zalloc_def)
  from read_stores_word_by_word [OF h1 h2 h3, of sample_io "\<lambda>i. 0"]
  have "\<exists>v'. read_loop sample_io
               (read_init (\<lambda>i. 0) (request 0 256) (pic_initial sample_io (\<lambda>k. True)))
             = Some v' \<and> count v' = 257 \<and> buffer v' 1027 = 0xFF"
    by simp
  with h1 h2 h3 z show ?thesis
    by blast
qed

text \<open>
  C3, what the code does. Suppose the device-id word reads as \<open>0x0000\<close> or
  \<open>0x3FFF\<close>, the bitwise OR of the four user-id words and the config word is zero,
  and the scan of program words 0 to 15 finds only zeros. Then
  \<^verbatim>\<open>pic_command_detect_device\<close> leaves through its bare \<^verbatim>\<open>return;\<close>: it
  returns no status and hands no response to the TCP server (the only report is the
  line \<^verbatim>\<open>ERROR\<close> on the debug console). The programmer ends idle and the active
  profile is untouched. The DeviceNotDetected response that the other not-detected
  path of the same function sends is missing here.
\<close>

theorem detect_nothing_found_is_silent:
  assumes ids: "read_id_words K s = ((u0, u1, u2, u3, dev, cfg), s6)"
    and dev: "dev = 0 \<or> dev = 0x3FFF"
    and zero: "u0 OR u1 OR u2 OR u3 OR cfg = 0"
    and scan: "fst (detect_scan K 0 0 s6) = 0"
  shows "fst (pic_command_detect_device K req s) = None
       \<and> responses (snd (pic_command_detect_device K req s)) = responses s
       \<and> pic_state (snd (pic_command_detect_device K req s)) = STATE_IDLE
       \<and> ranges (snd (pic_command_detect_device K req s)) = ranges s"
proof -
  have "profile (snd (pic_command_detect_device K req s)) = profile s"
    by (simp add: detect_nothing_found [OF assms] after_read_id_words [OF ids])
  then have "ranges (snd (pic_command_detect_device K req s)) = ranges s"
    by (rule ranges_profile)
  then show ?thesis
    by (simp add: detect_nothing_found [OF assms] after_read_id_words [OF ids])
qed

theorem detect_nothing_found_is_silent_witness:
  "fst (read_id_words sample_io (pic_initial sample_io (\<lambda>k. False))) = (0, 0, 0, 0, 0, 0)
   \<and> fst (detect_scan sample_io 0 0
              (snd (read_id_words sample_io (pic_initial sample_io (\<lambda>k. False))))) = 0
   \<and> fst (pic_command_detect_device sample_io (request 0 0)
              (pic_initial sample_io (\<lambda>k. False))) = None
   \<and> responses (snd (pic_command_detect_device sample_io (request 0 0)
                        (pic_initial sample_io (\<lambda>k. False)))) = []
   \<and> pic_state (snd (pic_command_detect_device sample_io (request 0 0)
                        (pic_initial sample_io (\<lambda>k. False)))) = STATE_IDLE"
proof -
  let ?s = "pic_initial sample_io (\<lambda>k. False)"
  have hs: "fst (read_id_words sample_io ?s) = (0, 0, 0, 0, 0, 0)"
    by (rule read_id_words_low) simp
  then have ids: "read_id_words sample_io ?s
      = ((0, 0, 0, 0, 0, 0), snd (read_id_words sample_io ?s))"
    by (simp add: prod_eq_iff)
  have "data_in (snd (read_id_words sample_io ?s)) = (\<lambda>k. False)"
    by simp
  then have scan: "fst (detect_scan sample_io 0 0 (snd (read_id_words sample_io ?s))) = 0"
    by (rule detect_scan_low)
  have dev: "(0 :: 32 word) = 0 \<or> (0 :: 32 word) = 0x3FFF"
    by simp
  have zero: "(0 :: 32 word) OR 0 OR 0 OR 0 OR 0 = 0"
    by simp
  note w = detect_nothing_found_is_silent [OF ids dev zero scan, of "request 0 0"]
  have "responses ?s = []"
    by simp
  with w hs scan show ?thesis
    by simp
qed

text \<open>
  C4, as amended. Suppose the device-id word reads as \<open>0x0000\<close> or \<open>0x3FFF\<close>
  and the bitwise OR of the four user-id words and the config word is nonzero. Then
  no program word is scanned, the device id is forced to 0, and the function goes on
  as for any other id: it looks pattern 0 up in the table. When no entry has pattern 0
  it restores the default profile, leaves the programmer idle, sends one
  DeviceNotDetected response and returns that status. When an entry has pattern 0, it
  sends success with that entry's name, loads its profile and returns \<open>SP_OK\<close>.
\<close>

theorem detect_legacy_device:
  assumes ids: "read_id_words K s = ((u0, u1, u2, u3, dev, cfg), s6)"
    and dev: "dev = 0 \<or> dev = 0x3FFF"
    and nz: "u0 OR u1 OR u2 OR u3 OR cfg \<noteq> 0"
  shows "pic_command_detect_device K req s = detect_finish K 0 cfg s6 \<and>
         (case lookup_device (devices K) 0 of
            None \<Rightarrow>
              fst (pic_command_detect_device K req s) = Some SP_ERR_DEVICE_NOT_DETECTED \<and>
              responses (snd (pic_command_detect_device K req s))
                = responses s @ [sp_tcpserver_response SP_ERR_DEVICE_NOT_DETECTED []] \<and>
              pic_state (snd (pic_command_detect_device K req s)) = STATE_IDLE \<and>
              ranges (snd (pic_command_detect_device K req s)) = default_ranges K
          | Some d \<Rightarrow>
              fst (pic_command_detect_device K req s) = Some SP_OK \<and>
              responses (snd (pic_command_detect_device K req s))
                = responses s @ [sp_tcpserver_response SP_OK (map of_char (name d))] \<and>
              pic_state (snd (pic_command_detect_device K req s)) = STATE_IDLE \<and>
              ranges (snd (pic_command_detect_device K req s)) = device_ranges d)"
  using assms by (rule detect_legacy_result)

theorem detect_legacy_device_witness:
  "fst (read_id_words sample_io (pic_initial sample_io (\<lambda>k. True)))
     = (0x3FFF, 0x3FFF, 0x3FFF, 0x3FFF, 0x3FFF, 0x3FFF)
   \<and> lookup_device (devices sample_io) 0 = None
   \<and> fst (pic_command_detect_device sample_io (request 0 0) (pic_initial sample_io (\<lambda>k. True)))
       = Some SP_ERR_DEVICE_NOT_DETECTED
   \<and> pic_state (snd (pic_command_detect_device sample_io (request 0 0)
                        (pic_initial sample_io (\<lambda>k. True)))) = STATE_IDLE
   \<and> ranges (snd (pic_command_detect_device sample_io (request 0 0)
                     (pic_initial sample_io (\<lambda>k. True)))) = default_ranges sample_io"
proof -
  let ?s = "pic_initial sample_io (\<lambda>k. True)"
  have hs: "fst (read_id_words sample_io ?s) = (0x3FFF, 0x3FFF, 0x3FFF, 0x3FFF, 0x3FFF, 0x3FFF)"
    by (rule read_id_words_high) simp
  then have ids: "read_id_words sample_io ?s
      = ((0x3FFF, 0x3FFF, 0x3FFF, 0x3FFF, 0x3FFF, 0x3FFF), snd (read_id_words sample_io ?s))"
    by (simp add: prod_eq_iff)
  have dev: "(0x3FFF :: 32 word) = 0 \<or> (0x3FFF :: 32 word) = 0x3FFF"
    by simp
  have nz: "(0x3FFF :: 32 word) OR 0x3FFF OR 0x3FFF OR 0x3FFF OR 0x3FFF \<noteq> 0"
    by simp
  from detect_legacy_device [OF ids dev nz, of "request 0 0", THEN conjunct2]
  have "fst (pic_command_detect_device sample_io (request 0 0) ?s)
          = Some SP_ERR_DEVICE_NOT_DETECTED
        \<and> pic_state (snd (pic_command_detect_device sample_io (request 0 0) ?s)) = STATE_IDLE
        \<and> ranges (snd (pic_command_detect_device sample_io (request 0 0) ?s))
            = default_ranges sample_io"
    by (simp add: lookup_sample)
  with hs lookup_sample show ?thesis
    by blast
qed

text \<open>
  The claim as stated does not hold: with every sample of the data line high, all six
  words read \<open>0x3FFF\<close>; against the sample table the run reports DeviceNotDetected,
  not success, and against a table with a pattern-0 entry that entry is matched and its
  name reported.
\<close>

theorem detect_legacy_device_counterexample:
  "fst (read_id_words sample_io (pic_initial sample_io (\<lambda>k. True)))
     = (0x3FFF, 0x3FFF, 0x3FFF, 0x3FFF, 0x3FFF, 0x3FFF)
   \<and> fst (pic_command_detect_device sample_io (request 0 0) (pic_initial sample_io (\<lambda>k. True)))
       = Some SP_ERR_DEVICE_NOT_DETECTED
   \<and> responses (snd (pic_command_detect_device sample_io (request 0 0)
                        (pic_initial sample_io (\<lambda>k. True))))
       = [sp_tcpserver_response SP_ERR_DEVICE_NOT_DETECTED []]
   \<and> fst (pic_command_detect_device legacy_io (request 0 0) (pic_initial legacy_io (\<lambda>k. True)))
       = Some SP_OK
   \<and> responses (snd (pic_command_detect_device legacy_io (request 0 0)
                        (pic_initial legacy_io (\<lambda>k. True))))
       = [sp_tcpserver_response SP_OK (map of_char ''pic16f84'')]"
proof -
  let ?s = "pic_initial sample_io (\<lambda>k. True)" and ?t = "pic_initial legacy_io (\<lambda>k. True)"
  have hs: "fst (read_id_words sample_io ?s) = (0x3FFF, 0x3FFF, 0x3FFF, 0x3FFF, 0x3FFF, 0x3FFF)"
    by (rule read_id_words_high) simp
  have ht: "fst (read_id_words legacy_io ?t) = (0x3FFF, 0x3FFF, 0x3FFF, 0x3FFF, 0x3FFF, 0x3FFF)"
    by (rule read_id_words_high) simp
  have nz: "(0x3FFF :: 32 word) OR 0x3FFF OR 0x3FFF OR 0x3FFF OR 0x3FFF \<noteq> 0"
    by simp
  have ids: "read_id_words sample_io ?s
      = ((0x3FFF, 0x3FFF, 0x3FFF, 0x3FFF, 0x3FFF, 0x3FFF), snd (read_id_words sample_io ?s))"
    using hs by (simp add: prod_eq_iff)
  have idt: "read_id_words legacy_io ?t
      = ((0x3FFF, 0x3FFF, 0x3FFF, 0x3FFF, 0x3FFF, 0x3FFF), snd (read_id_words legacy_io ?t))"
    using ht by (simp add: prod_eq_iff)
  obtain d where d: "lookup_device (devices legacy_io) 0 = Some d" "name d = ''pic16f84''"
    using lookup_legacy by blast
  from detect_legacy_result [OF ids _ nz, of "request 0 0", THEN conjunct2]
  have a: "fst (pic_command_detect_device sample_io (request 0 0) ?s)
             = Some SP_ERR_DEVICE_NOT_DETECTED
           \<and> responses (snd (pic_command_detect_device sample_io (request 0 0) ?s))
               = [sp_tcpserver_response SP_ERR_DEVICE_NOT_DETECTED []]"
    by (simp add: lookup_sample)
  from detect_legacy_result [OF idt _ nz, of "request 0 0", THEN conjunct2]
  have b: "fst (pic_command_detect_device legacy_io (request 0 0) ?t) = Some SP_OK
           \<and> responses (snd (pic_command_detect_device legacy_io (request 0 0) ?t))
               = [sp_tcpserver_response SP_OK (map of_char ''pic16f84'')]"
    by (simp add: d)
  from a b hs show ?thesis
    by blast
qed

text \<open>
  C5, as amended. A call of \<^verbatim>\<open>_set_program_counter\<close> performs a full
  reset-and-reinitialize cycle (what \<^verbatim>\<open>_exit_program_mode\<close> followed by
  \<^verbatim>\<open>_enter_program_mode\<close> does, then load-config for a Config target) before it
  counts up, whenever the target is a Program or Data address and the programmer is
  not in \<open>STATE_PROGRAM\<close>, or the target is a Config address and the programmer is
  idle, or the programmer is already in the state of the target's region and the
  target's offset is strictly below the counter. In every other case the call adds no
  power-down and no power-up: it only counts up, after a load-config command that zeroes
  the counter when a Config target is reached from \<open>STATE_PROGRAM\<close>. Program and
  Data share \<open>STATE_PROGRAM\<close> and the counter, so moving forward from one to the
  other takes no cycle either.
\<close>

theorem set_program_counter_reset_cycle:
  "(reset_condition s addr \<longrightarrow> full_reset_cycle K addr s) \<and>
   (\<not> reset_condition s addr \<longrightarrow>
      power_events (set_program_counter K addr s) = power_events s \<and>
      set_program_counter K addr s =
        advance_program_counter K (offset_of s addr)
          (if region_of s addr = Config \<and> pic_state s = STATE_PROGRAM
           then (load_config K s)\<lparr>program_counter := 0\<rparr> else s))"
proof (intro conjI impI)
  assume "reset_condition s addr"
  then show "full_reset_cycle K addr s"
    by (rule reset_condition_full_reset_cycle)
next
  assume n: "\<not> reset_condition s addr"
  then have "pic_state s \<noteq> STATE_IDLE"
    by (auto simp add: reset_condition_def split: if_splits)
  with n show "power_events (set_program_counter K addr s) = power_events s"
    by (simp add: power_events_set_program_counter)
  from n show "set_program_counter K addr s =
        advance_program_counter K (offset_of s addr)
          (if region_of s addr = Config \<and> pic_state s = STATE_PROGRAM
           then (load_config K s)\<lparr>program_counter := 0\<rparr> else s)"
    by (rule no_reset_condition)
qed

theorem set_program_counter_reset_cycle_witness:
  "reset_condition in_program_at_5 2 \<and> full_reset_cycle sample_io 2 in_program_at_5
   \<and> \<not> reset_condition in_program_at_5 0x2000
   \<and> power_events (set_program_counter sample_io 0x2000 in_program_at_5)
       = power_events in_program_at_5"
proof -
  have r: "reset_condition in_program_at_5 2"
    by (simp add: reset_condition_def in_program_at_5_fields pic_initial_regions)
  have n: "\<not> reset_condition in_program_at_5 0x2000"
    by (simp add: reset_condition_def in_program_at_5_fields pic_initial_regions)
  from set_program_counter_reset_cycle [of in_program_at_5 2 sample_io]
    set_program_counter_reset_cycle [of in_program_at_5 "0x2000" sample_io] r n
  show ?thesis
    by blast
qed

text \<open>
  The claim as stated does not hold. From a session in Program memory at offset 5, a
  call for Config address \<open>0x2000\<close> changes region and yet performs no cycle, and
  a call for Data address \<open>0x2105\<close> changes region and does nothing at all.
\<close>

theorem reset_on_region_change_counterexample:
  "region_of in_program_at_5 5 = Program \<and> pic_state in_program_at_5 = STATE_PROGRAM
   \<and> program_counter in_program_at_5 = 5
   \<and> region_of in_program_at_5 0x2000 = Config
   \<and> claimed_reset_condition in_program_at_5 0x2000
   \<and> \<not> full_reset_cycle sample_io 0x2000 in_program_at_5
   \<and> power_events (set_program_counter sample_io 0x2000 in_program_at_5)
       = power_events in_program_at_5
   \<and> region_of in_program_at_5 0x2105 = Data
   \<and> set_program_counter sample_io 0x2105 in_program_at_5 = in_program_at_5"
proof -
  let ?s = in_program_at_5
  have ni: "pic_state ?s \<noteq> STATE_IDLE"
    by (simp add: in_program_at_5_fields)
  have nr: "\<not> reset_condition ?s 0x2000"
    by (simp add: reset_condition_def in_program_at_5_fields pic_initial_regions)
  from ni nr have nf: "\<not> full_reset_cycle sample_io 0x2000 ?s"
    using full_reset_cycle_needs_condition by blast
  from ni nr have pe: "power_events (set_program_counter sample_io 0x2000 ?s) = power_events ?s"
    by (simp add: power_events_set_program_counter)
  have cl: "claimed_reset_condition ?s 0x2000"
    by (simp add: claimed_reset_condition_def in_program_at_5_fields pic_initial_regions
        state_of_region_def)
  have "\<not> reset_condition ?s 0x2105"
    by (simp add: reset_condition_def in_program_at_5_fields pic_initial_regions)
  then have "set_program_counter sample_io 0x2105 ?s = advance_program_counter sample_io 5 ?s"
    using no_reset_condition [of ?s "0x2105" sample_io]
    by (simp add: in_program_at_5_fields pic_initial_regions)
  also have "\<dots> = ?s"
    by (subst advance_program_counter.simps) (simp add: in_program_at_5_fields)
  finally have stay: "set_program_counter sample_io 0x2105 ?s = ?s" .
  from nf pe cl stay show ?thesis
    by (simp add: in_program_at_5_fields pic_initial_regions)
qed

text \<open>
  C6. Let \<open>a1 < a2\<close> be flat addresses of the same region and let the programmer be
  idle. Visiting \<open>a1\<close> then \<open>a2\<close> powers the target up once, on entry, and
  never down: the second call only counts up. Visiting \<open>a2\<close> then \<open>a1\<close>
  powers up once on entry, and the second call performs exactly one reset cycle, one
  power-down followed by one power-up, before it counts up to \<open>a1\<close>.
\<close>

theorem same_region_visits:
  assumes idle: "pic_state s = STATE_IDLE"
    and lt: "a1 < a2"
    and same: "region_of s a1 = region_of s a2"
  shows "power_events (set_program_counter K a2 (set_program_counter K a1 s))
           = power_events s @ [power_up]
       \<and> set_program_counter K a2 (set_program_counter K a1 s)
           = advance_program_counter K (offset_of s a2) (set_program_counter K a1 s)
       \<and> power_events (set_program_counter K a2 s) = power_events s @ [power_up]
       \<and> power_events (set_program_counter K a1 (set_program_counter K a2 s))
           = power_events s @ [power_up, power_down, power_up]
       \<and> full_reset_cycle K a1 (set_program_counter K a2 s)"
proof -
  let ?s1 = "set_program_counter K a1 s" and ?s2 = "set_program_counter K a2 s"
  from same lt have off: "offset_of s a1 < offset_of s a2"
    by (rule offset_of_mono)
  have st1: "pic_state ?s1 = state_of_region (region_of s a2)"
    and pc1: "program_counter ?s1 = offset_of s a1"
    using set_program_counter_target [of K a1 s] same by simp_all
  have st2: "pic_state ?s2 = state_of_region (region_of s a2)"
    and pc2: "program_counter ?s2 = offset_of s a2"
    using set_program_counter_target [of K a2 s] by simp_all
  from off have noff: "\<not> offset_of s a2 < offset_of s a1"
    by simp
  have fwd: "\<not> reset_condition ?s1 a2"
    using st1 pc1 noff by (cases "region_of s a2"; simp add: reset_condition_def state_of_region_def)
  have bwd: "reset_condition ?s2 a1"
    using st2 pc2 off same by (cases "region_of s a2"; simp add: reset_condition_def state_of_region_def)
  have ni1: "pic_state ?s1 \<noteq> STATE_IDLE" and ni2: "pic_state ?s2 \<noteq> STATE_IDLE"
    using st1 st2 by (cases "region_of s a2"; simp add: state_of_region_def)+
  have first1: "power_events ?s1 = power_events s @ [power_up]"
    and first2: "power_events ?s2 = power_events s @ [power_up]"
    using idle by (simp_all add: power_events_set_program_counter)
  have A: "power_events (set_program_counter K a2 ?s1) = power_events s @ [power_up]"
    using fwd ni1 first1 by (simp add: power_events_set_program_counter)
  have B: "set_program_counter K a2 ?s1 = advance_program_counter K (offset_of s a2) ?s1"
    using no_reset_condition [OF fwd, of K] st1
    by (cases "region_of s a2"; simp add: state_of_region_def)
  have C: "power_events (set_program_counter K a1 ?s2)
             = power_events s @ [power_up, power_down, power_up]"
    using bwd ni2 first2 by (simp add: power_events_set_program_counter)
  have D: "full_reset_cycle K a1 ?s2"
    using bwd by (rule reset_condition_full_reset_cycle)
  from A B first2 C D show ?thesis
    by simp
qed

theorem same_region_visits_witness:
  "pic_state (pic_initial sample_io (\<lambda>k. False)) = STATE_IDLE \<and> (3 :: 64 word) < 7
   \<and> region_of (pic_initial sample_io (\<lambda>k. False)) 3
       = region_of (pic_initial sample_io (\<lambda>k. False)) 7
   \<and> power_events (set_program_counter sample_io 7
         (set_program_counter sample_io 3 (pic_initial sample_io (\<lambda>k. False))))
       = [power_up]
   \<and> power_events (set_program_counter sample_io 3
         (set_program_counter sample_io 7 (pic_initial sample_io (\<lambda>k. False))))
       = [power_up, power_down, power_up]"
proof -
  let ?s = "pic_initial sample_io (\<lambda>k. False)"
  have h1: "pic_state ?s = STATE_IDLE"
    by simp
  have h2: "(3 :: 64 word) < 7"
    by simp
  have h3: "region_of ?s 3 = region_of ?s 7"
    by (simp add: pic_initial_regions)
  have e: "power_events ?s = []"
    by (simp add: power_events_def)
  note w = same_region_visits [OF h1 h2 h3, of sample_io, unfolded e append_Nil]
  from w h1 h2 h3 show ?thesis
    by blast
qed

text \<open>
  C7. \<^verbatim>\<open>_read_word\<close> first sets the program counter to the address. If the
  address is within the Data bounds of the active profile it sends the Data-memory read
  opcode and returns \<open>(raw >> 1) & 0x00FF\<close>; otherwise it sends the Program-memory
  read opcode and returns \<open>(raw >> 1) & 0x3FFF\<close>. In both cases \<open>raw\<close>, the
  value of the read command, is a 16-bit word.
\<close>

theorem read_word_by_region:
  "read_word K addr s =
     (let s1 = set_program_counter K addr s
      in if dataStart s \<le> addr \<and> addr \<le> dataEnd s then
           (let (raw, s2) = send_read_command (CMD_READ_DATA_MEMORY K) s1
            in (drop_bit 1 raw AND 0x00FF, s2))
         else
           (let (raw, s2) = send_read_command (CMD_READ_PROGRAM_MEMORY K) s1
            in (drop_bit 1 raw AND 0x3FFF, s2)))
   \<and> take_bit 16 (fst (send_read_command (CMD_READ_DATA_MEMORY K)
                        (set_program_counter K addr s)))
       = fst (send_read_command (CMD_READ_DATA_MEMORY K) (set_program_counter K addr s))
   \<and> take_bit 16 (fst (send_read_command (CMD_READ_PROGRAM_MEMORY K)
                        (set_program_counter K addr s)))
       = fst (send_read_command (CMD_READ_PROGRAM_MEMORY K) (set_program_counter K addr s))"
  using send_read_command_sixteen_bit [of "CMD_READ_DATA_MEMORY K" "set_program_counter K addr s"]
    send_read_command_sixteen_bit [of "CMD_READ_PROGRAM_MEMORY K" "set_program_counter K addr s"]
  unfolding sixteen_bit_def read_word_unfold by simp

theorem read_word_by_region_witness:
  "fst (read_word sample_io 5 (pic_initial sample_io (\<lambda>k. True))) = 0x3FFF \<and>
   fst (read_word sample_io 0x2100 (pic_initial sample_io (\<lambda>k. True))) = 0x00FF"
proof -
  let ?s = "pic_initial sample_io (\<lambda>k. True)"
  have din: "data_in (set_program_counter sample_io a ?s) = (\<lambda>k. True)" for a
    by (simp add: pic_initial_def)
  have m1: "drop_bit 1 (0xFFFF :: 32 word) AND 0x3FFF = 0x3FFF"
    by code_simp
  have m2: "drop_bit 1 (0xFFFF :: 32 word) AND 0x00FF = 0x00FF"
    by code_simp
  have b1: "\<not> (dataStart ?s \<le> 5 \<and> 5 \<le> dataEnd ?s)"
    by (simp add: pic_initial_def)
  have b2: "dataStart ?s \<le> 0x2100 \<and> 0x2100 \<le> dataEnd ?s"
    by (simp add: pic_initial_def)
  from read_word_by_region [of sample_io 5 ?s] b1
  have "fst (read_word sample_io 5 ?s) = 0x3FFF"
    by (simp add: Let_def split_beta send_read_command_high [OF din] m1)
  moreover from read_word_by_region [of sample_io "0x2100" ?s] b2
  have "fst (read_word sample_io 0x2100 ?s) = 0x00FF"
    by (simp add: Let_def split_beta send_read_command_high [OF din] m2)
  ultimately show ?thesis
    by simp
qed

text \<open>
  C8. When \<^verbatim>\<open>_set_program_counter\<close> returns, the hardware counter equals the
  region-relative offset of the address (the address minus \<open>dataStart\<close> for Data,
  minus \<open>configStart\<close> for Config, the address itself for Program), and the
  programmer is in state \<open>STATE_PROGRAM\<close> for Program and Data targets and in
  \<open>STATE_CONFIG\<close> for Config targets. This holds from every session state and for
  every flat address.
\<close>

theorem set_program_counter_reaches_target:
  "program_counter (set_program_counter K addr s) = offset_of s addr \<and>
   pic_state (set_program_counter K addr s) = state_of_region (region_of s addr)"
  by (rule set_program_counter_target)

theorem set_program_counter_reaches_target_witness:
  "program_counter (set_program_counter sample_io 0x2105 (pic_initial sample_io (\<lambda>k. False))) = 5
   \<and> pic_state (set_program_counter sample_io 0x2105 (pic_initial sample_io (\<lambda>k. False)))
       = STATE_PROGRAM
   \<and> program_counter (set_program_counter sample_io 0x2003 (pic_initial sample_io (\<lambda>k. False))) = 3
   \<and> pic_state (set_program_counter sample_io 0x2003 (pic_initial sample_io (\<lambda>k. False)))
       = STATE_CONFIG"
  using set_program_counter_reaches_target [of sample_io "0x2105" "pic_initial sample_io (\<lambda>k. False)"]
    set_program_counter_reaches_target [of sample_io "0x2003" "pic_initial sample_io (\<lambda>k. False)"]
  by (simp add: offset_of_def region_of_def in_data_def in_config_def pic_initial_def
      state_of_region_def)

text \<open>
  C9. When the decoded end address is strictly below the decoded start address,
  \<^verbatim>\<open>pic_command_read\<close> returns \<open>SP_OK\<close> and the only thing it does is emit
  one \<open>SP_STATUS_READ_DONE\<close> response with an empty body: no word is read (no pin
  event, no sample) and no \<open>SP_STATUS_READ_MORE\<close> response is emitted.
\<close>

theorem read_empty_range:
  assumes "bigendian_deserialize_uint32 (body req) 8 < bigendian_deserialize_uint32 (body req) 0"
  shows "pic_command_read K heap req s =
           Some (SP_OK, emits [sp_tcpserver_response SP_STATUS_READ_DONE []] s)"
proof -
  from assms have "\<not> start (read_init heap req s) \<le> end_addr (read_init heap req s)"
    by (simp add: read_init_def not_le)
  then have "read_loop K (read_init heap req s) = Some (read_init heap req s)"
    by (rule read_loop_done)
  then show ?thesis
    by (simp add: pic_command_read_def read_init_def)
qed

theorem read_empty_range_witness:
  "bigendian_deserialize_uint32 (body (request 5 0)) 8
     < bigendian_deserialize_uint32 (body (request 5 0)) 0
   \<and> pic_command_read sample_io (\<lambda>i. 0) (request 5 0) (pic_initial sample_io (\<lambda>k. False))
       = Some (SP_OK, emits [sp_tcpserver_response SP_STATUS_READ_DONE []]
                        (pic_initial sample_io (\<lambda>k. False)))"
proof -
  have h: "bigendian_deserialize_uint32 (body (request 5 0)) 8
             < bigendian_deserialize_uint32 (body (request 5 0)) 0"
    by simp
  from read_empty_range [OF h] h show ?thesis
    by blast
qed




end
